theory Spec2Isabelle
  imports Complex_Main "HOL-Library.AList" "HOL-Library.Option_ord"
begin

section \<open>Numbers and shared types\<close>

text \<open>
  A JavaScript number is modelled by the rational it denotes. A value that can be
  \<^verbatim>\<open>NaN\<close> in the source (a bucket key computed with a zero divisor) is a
  \<open>rat option\<close>, \<open>None\<close> standing for \<^verbatim>\<open>NaN\<close>; \<^verbatim>\<open>undefined\<close> and
  \<^verbatim>\<open>null\<close> arguments are \<open>None\<close> of an option as well.

  The source computes in IEEE 754 binary64: the result of \<^verbatim>\<open>+\<close>, \<^verbatim>\<open>-\<close>, \<^verbatim>\<open>*\<close>
  and \<^verbatim>\<open>/\<close> is the exact result rounded to the nearest double. The footprint
  aggregator is therefore modelled over a rounding function \<open>rnd\<close>, applied to the exact
  result of each of its arithmetic operations. Two roundings are used: \<open>exact\<close> rounds
  nothing (arithmetic on the rationals), \<open>binary64\<close> rounds as the machine does. The
  other components are modelled with exact arithmetic.
\<close>

definition exact :: "rat \<Rightarrow> rat" where
  "exact x = x"

text \<open>The number of binary digits of a positive integer, 0 for the others.\<close>

function bits :: "int \<Rightarrow> int" where
  "bits n = (if n \<le> 0 then 0 else 1 + bits (n div 2))"
  by pat_completeness auto
termination
  by (relation "measure nat") auto

declare bits.simps [simp del]

text \<open>
  The binary exponent of a positive rational: the \<open>e\<close> with \<open>2^e \<le> x < 2^(e+1)\<close>. For
  \<open>x = a / b\<close> in lowest terms it is the difference of the digit counts of \<open>a\<close> and
  \<open>b\<close>, or one less.
\<close>

definition ilog2 :: "rat \<Rightarrow> int" where
  "ilog2 x =
     (case quotient_of x of
        (a, b) \<Rightarrow>
          (let k = bits a - bits b
           in if power_int 2 k \<le> x then k else k - 1))"

text \<open>The nearest integer, a tie going to the even one.\<close>

definition roundHalfEven :: "rat \<Rightarrow> int" where
  "roundHalfEven y =
     (let f = \<lfloor>y\<rfloor>; r = y - of_int f
      in if r < 1 / 2 then f
         else if r > 1 / 2 then f + 1
         else if even f then f else f + 1)"

text \<open>
  Rounding to binary64, to nearest with ties to even. A double has 53 significant
  bits: around an \<open>x\<close> with \<open>2^e \<le> |x| < 2^(e+1)\<close> the doubles are the multiples of
  \<open>2^(e-52)\<close>, and of \<open>2^(-1074)\<close> in the subnormal range (\<open>e < -1022\<close>); \<open>binary64 x\<close>
  is the nearest of them. The two zeros are one number here, and a result beyond the
  largest double (\<^verbatim>\<open>Infinity\<close> in the source) is not represented: the model follows the
  source for results of magnitude below \<open>2^1024\<close>.
\<close>

definition binary64 :: "rat \<Rightarrow> rat" where
  "binary64 x =
     (if x = 0 then 0
      else (let q = max (ilog2 \<bar>x\<bar> - 52) (- 1074)
            in of_int (roundHalfEven (x / power_int 2 q)) * power_int 2 q))"

datatype side = Buy | Sell | Unknown

record tick =
  ts :: rat
  price :: rat
  tsize :: rat
  side :: side

section \<open>Aggressor side inference\<close>

text \<open>
  \<^verbatim>\<open>inferSide(price, prevPrice, bidPrice, askPrice)\<close> of
  \<^verbatim>\<open>engine/aggregation.js\<close>; an argument that is \<^verbatim>\<open>undefined\<close> is \<open>None\<close>.
  \<open>bookRule\<close> is its first block (both book sides given), \<open>tickRule\<close> its second
  (a previous price given); each answers \<open>None\<close> when it returns nothing and the
  function goes on.
\<close>

definition bookRule :: "rat \<Rightarrow> rat option \<Rightarrow> rat option \<Rightarrow> side option" where
  "bookRule p bidPrice askPrice =
     (case (bidPrice, askPrice) of
        (Some bid, Some ask) \<Rightarrow>
          if p \<ge> ask then Some Buy else if p \<le> bid then Some Sell else None
      | _ \<Rightarrow> None)"

definition tickRule :: "rat \<Rightarrow> rat option \<Rightarrow> side option" where
  "tickRule p prevPrice =
     (case prevPrice of
        Some prev \<Rightarrow> if p > prev then Some Buy else if p < prev then Some Sell else None
      | None \<Rightarrow> None)"

definition inferSide :: "rat \<Rightarrow> rat option \<Rightarrow> rat option \<Rightarrow> rat option \<Rightarrow> side" where
  "inferSide p prevPrice bidPrice askPrice =
     (case bookRule p bidPrice askPrice of
        Some s \<Rightarrow> s
      | None \<Rightarrow> (case tickRule p prevPrice of Some s \<Rightarrow> s | None \<Rightarrow> Unknown))"

text \<open>
  \<^verbatim>\<open>AggregationEngine._inferSide(price)\<close> of \<^verbatim>\<open>engine/AggregationEngine.js\<close>.
  It reads the engine's \<^verbatim>\<open>lastAsk\<close>, \<^verbatim>\<open>lastBid\<close> (numbers, initially 0, tested
  for truthiness) and the prices of \<^verbatim>\<open>trades\<close>; the value drawn by
  \<^verbatim>\<open>Math.random()\<close> is the explicit argument \<open>rnd\<close>.
\<close>

definition engine_inferSide :: "rat \<Rightarrow> rat \<Rightarrow> rat list \<Rightarrow> rat \<Rightarrow> rat \<Rightarrow> side" where
  "engine_inferSide lastAsk lastBid trades rnd p =
     (if lastAsk \<noteq> 0 \<and> p \<ge> lastAsk then Buy
      else if lastBid \<noteq> 0 \<and> p \<le> lastBid then Sell
      else if length trades > 0 then (if p \<ge> last trades then Buy else Sell)
      else if rnd < 1 / 2 then Buy else Sell)"

section \<open>Replay\<close>

text \<open>
  Two replay engines exist. Both keep the loaded ticks, a position and a running flag;
  the delay of the pending timer is real time and is not modelled, only whether a timer
  is pending. \<open>delivered\<close> logs the ticks handed to the engine (\<^verbatim>\<open>onTrade\<close>,
  \<^verbatim>\<open>onTick\<close>), newest last. A thrown \<^verbatim>\<open>Error\<close> is \<open>Inl\<close> of the outcome; the object
  state after the call is returned next to it.
\<close>

datatype replay_error = NoTicksLoaded

record replay =
  running :: bool
  speed :: rat
  rticks :: "tick list"
  idx :: nat
  timer :: bool
  delivered :: "tick list"
  sessionResets :: nat

text \<open>\<^verbatim>\<open>ReplayEngine._playNext\<close> of \<^verbatim>\<open>engine/AggregationEngine.js\<close>, up to the timer.\<close>

definition playNext :: "replay \<Rightarrow> replay" where
  "playNext r =
     (if \<not> running r \<or> idx r \<ge> length (rticks r) then r\<lparr>running := False\<rparr>
      else
        let r1 = r\<lparr>delivered := delivered r @ [rticks r ! idx r], idx := idx r + 1\<rparr>
        in if idx r1 < length (rticks r1) then r1\<lparr>timer := True\<rparr>
           else r1\<lparr>running := False\<rparr>)"

text \<open>
  \<^verbatim>\<open>ReplayEngine.play(speed)\<close> of \<^verbatim>\<open>engine/AggregationEngine.js\<close>. The result of a
  successful call is \<^verbatim>\<open>{status: 'playing', count}\<close>, modelled by the count.
\<close>

definition play :: "replay \<Rightarrow> rat option \<Rightarrow> replay \<times> (replay_error + nat)" where
  "play r sp =
     (let r1 = r\<lparr>speed := (case sp of None \<Rightarrow> 1 | Some s \<Rightarrow> if s = 0 then 1 else s)\<rparr>
      in if length (rticks r1) = 0 then (r1, Inl NoTicksLoaded)
         else
           let r2 = playNext (r1\<lparr>running := True, sessionResets := sessionResets r1 + 1\<rparr>)
           in (r2, Inr (length (rticks r2))))"

text \<open>
  The replay engine of \<^verbatim>\<open>storage/storage.js\<close>: fields \<^verbatim>\<open>_playing\<close>, \<^verbatim>\<open>_speed\<close>,
  \<^verbatim>\<open>_ticks\<close>, \<^verbatim>\<open>_pos\<close>, \<^verbatim>\<open>_startRealTs\<close>, \<^verbatim>\<open>_startTickTs\<close>.
\<close>

record sreplay =
  s_playing :: bool
  s_speed :: rat
  s_ticks :: "tick list"
  s_pos :: nat
  s_timer :: bool
  s_startRealTs :: rat
  s_startTickTs :: rat
  s_delivered :: "tick list"

definition scheduleNext :: "sreplay \<Rightarrow> sreplay" where
  "scheduleNext r =
     (if \<not> s_playing r \<or> s_pos r \<ge> length (s_ticks r) then
        (if s_pos r \<ge> length (s_ticks r) then r\<lparr>s_playing := False\<rparr> else r)
      else if s_pos r + 1 \<ge> length (s_ticks r) then
        r\<lparr>s_delivered := s_delivered r @ [s_ticks r ! s_pos r], s_pos := s_pos r + 1,
          s_playing := False\<rparr>
      else
        r\<lparr>s_delivered := s_delivered r @ [s_ticks r ! s_pos r], s_pos := s_pos r + 1,
          s_timer := True\<rparr>)"

text \<open>
  \<^verbatim>\<open>ReplayEngine.play(speed = 1.0)\<close> of \<^verbatim>\<open>storage/storage.js\<close>; \<open>now\<close> is the
  reading of \<^verbatim>\<open>Date.now()\<close>. The method has no return value and throws nowhere, so
  its outcome is always \<open>Inr ()\<close>.
\<close>

definition storage_play :: "sreplay \<Rightarrow> rat option \<Rightarrow> rat \<Rightarrow> sreplay \<times> (replay_error + unit)" where
  "storage_play r sp now =
     (if length (s_ticks r) = 0 then (r, Inr ())
      else
        let r1 = r\<lparr>s_speed := (case sp of None \<Rightarrow> 1 | Some s \<Rightarrow> s), s_playing := True,
                   s_startRealTs := now,
                   s_startTickTs := (if s_pos r < length (s_ticks r) then ts (s_ticks r ! s_pos r)
                                     else now)\<rparr>
        in (scheduleNext r1, Inr ()))"

text \<open>\<^verbatim>\<open>load\<close> of both engines, given the ticks the store returns for the range.\<close>

definition load :: "replay \<Rightarrow> tick list \<Rightarrow> replay \<times> nat" where
  "load r found = (r\<lparr>rticks := found, idx := 0\<rparr>, length found)"

definition storage_load :: "sreplay \<Rightarrow> tick list \<Rightarrow> sreplay \<times> nat" where
  "storage_load r found = (r\<lparr>s_ticks := found, s_pos := 0, s_playing := False\<rparr>, length found)"

text \<open>The constructors.\<close>

definition new_replay :: replay where
  "new_replay = \<lparr>running = False, speed = 1, rticks = [], idx = 0, timer = False,
                  delivered = [], sessionResets = 0\<rparr>"

definition new_sreplay :: sreplay where
  "new_sreplay = \<lparr>s_playing = False, s_speed = 1, s_ticks = [], s_pos = 0, s_timer = False,
                   s_startRealTs = 0, s_startTickTs = 0, s_delivered = []\<rparr>"

section \<open>Footprint aggregator\<close>

text \<open>
  Each function of the class comes in two forms: \<open>f_in rnd\<close> is the source function
  with the result of every arithmetic operation rounded by \<open>rnd\<close>, and \<open>f\<close> is
  \<open>f_in exact\<close>.

  \<^verbatim>\<open>Math.floor(ts / barDurationMs) * barDurationMs\<close>. With a zero duration the
  quotient is infinite or \<^verbatim>\<open>NaN\<close> and the product is \<^verbatim>\<open>NaN\<close>. \<^verbatim>\<open>Math.floor\<close> of a
  double is a double: it rounds nothing.
\<close>

definition barKey_in :: "(rat \<Rightarrow> rat) \<Rightarrow> rat \<Rightarrow> rat \<Rightarrow> rat option" where
  "barKey_in rnd d t =
     (if d = 0 then None else Some (rnd (of_int \<lfloor>rnd (t / d)\<rfloor> * d)))"

definition barKey :: "rat \<Rightarrow> rat \<Rightarrow> rat option" where
  "barKey d t = barKey_in exact d t"

text \<open>
  \<^verbatim>\<open>_roundToTick\<close>: \<^verbatim>\<open>Math.round(price / tickSize) * tickSize\<close>; \<^verbatim>\<open>Math.round\<close>
  rounds a half towards plus infinity, and its result is a double.
\<close>

definition roundToTick_in :: "(rat \<Rightarrow> rat) \<Rightarrow> rat \<Rightarrow> rat \<Rightarrow> rat option" where
  "roundToTick_in rnd tk p =
     (if tk = 0 then None else Some (rnd (of_int \<lfloor>rnd (p / tk) + 1 / 2\<rfloor> * tk)))"

definition roundToTick :: "rat \<Rightarrow> rat \<Rightarrow> rat option" where
  "roundToTick tk p = roundToTick_in exact tk p"

text \<open>\<^verbatim>\<open>a !== b\<close> on numbers: \<^verbatim>\<open>NaN\<close> differs from everything, itself included.\<close>

definition js_neq :: "rat option \<Rightarrow> rat option \<Rightarrow> bool" where
  "js_neq a b = (a = None \<or> b = None \<or> a \<noteq> b)"

record level =
  bidVol :: rat
  askVol :: rat
  delta :: rat

datatype imb_side = AskImb | BidImb

record imbalance =
  imb_price :: "rat option"
  imb_ratio :: rat
  imb_side :: imb_side

text \<open>
  A bar. \<open>levels\<close> is the \<^verbatim>\<open>Map\<close> from rounded price to level, in insertion order;
  \<open>b_open\<close> and \<open>b_close\<close> are the fields \<^verbatim>\<open>open\<close> and \<^verbatim>\<open>close\<close>.
\<close>

record bar =
  openTs :: "rat option"
  closeTs :: "rat option"
  b_open :: rat
  high :: rat
  low :: rat
  b_close :: rat
  totalVolume :: rat
  totalDelta :: rat
  totalBidVol :: rat
  totalAskVol :: rat
  levels :: "(rat option \<times> level) list"
  imbalances :: "imbalance list"

record footprint =
  barDurationMs :: rat
  tickSize :: rat
  imbalanceRatio :: rat
  currentBar :: "bar option"
  completedBars :: "bar list"
  maxBars :: nat

definition new_FootprintAggregator :: "rat \<Rightarrow> rat \<Rightarrow> rat \<Rightarrow> footprint" where
  "new_FootprintAggregator d tk r =
     \<lparr>barDurationMs = d, tickSize = tk, imbalanceRatio = r, currentBar = None,
      completedBars = [], maxBars = 100\<rparr>"

definition newBar_in :: "(rat \<Rightarrow> rat) \<Rightarrow> rat \<Rightarrow> rat \<Rightarrow> rat \<Rightarrow> bar" where
  "newBar_in rnd d t p =
     (let barOpen = barKey_in rnd d t
      in \<lparr>openTs = barOpen, closeTs = map_option (\<lambda>b. rnd (b + d)) barOpen,
          b_open = p, high = p, low = p, b_close = p,
          totalVolume = 0, totalDelta = 0, totalBidVol = 0, totalAskVol = 0,
          levels = [], imbalances = []\<rparr>)"

definition newBar :: "rat \<Rightarrow> rat \<Rightarrow> rat \<Rightarrow> bar" where
  "newBar d t p = newBar_in exact d t p"

text \<open>
  The two tests \<^verbatim>\<open>_finalizeBar\<close> makes on an adjacent pair of levels, \<open>lower\<close> at
  price \<open>p\<close> and \<open>upper\<close> at price \<open>q\<close>. Each division stands under its guard, as
  in the source.
\<close>

definition checkPair_in ::
  "(rat \<Rightarrow> rat) \<Rightarrow> rat \<Rightarrow> rat option \<Rightarrow> level \<Rightarrow> rat option \<Rightarrow> level \<Rightarrow> imbalance list" where
  "checkPair_in rnd r p lower q upper =
     (if bidVol upper > 0 \<and> rnd (askVol lower / bidVol upper) \<ge> r
      then [\<lparr>imb_price = p, imb_ratio = rnd (askVol lower / bidVol upper), imb_side = AskImb\<rparr>]
      else [])
     @ (if askVol lower > 0 \<and> rnd (bidVol upper / askVol lower) \<ge> r
        then [\<lparr>imb_price = q, imb_ratio = rnd (bidVol upper / askVol lower), imb_side = BidImb\<rparr>]
        else [])"

definition checkPair :: "rat \<Rightarrow> rat option \<Rightarrow> level \<Rightarrow> rat option \<Rightarrow> level \<Rightarrow> imbalance list" where
  "checkPair r p lower q upper = checkPair_in exact r p lower q upper"

text \<open>
  The loop of \<^verbatim>\<open>_finalizeBar\<close> over the sorted prices: one step for each adjacent
  pair, skipped (\<^verbatim>\<open>continue\<close>) when a level is missing.
\<close>

fun imbalance_loop_in ::
  "(rat \<Rightarrow> rat) \<Rightarrow> rat \<Rightarrow> (rat option \<rightharpoonup> level) \<Rightarrow> rat option list \<Rightarrow> imbalance list" where
  "imbalance_loop_in rnd r lv (p # q # ps) =
     (case (lv p, lv q) of
        (Some lower, Some upper) \<Rightarrow> checkPair_in rnd r p lower q upper
      | _ \<Rightarrow> [])
     @ imbalance_loop_in rnd r lv (q # ps)"
| "imbalance_loop_in rnd r lv ps = []"

definition imbalance_loop :: "rat \<Rightarrow> (rat option \<rightharpoonup> level) \<Rightarrow> rat option list \<Rightarrow> imbalance list" where
  "imbalance_loop r lv ps = imbalance_loop_in exact r lv ps"

text \<open>
  \<^verbatim>\<open>_finalizeBar\<close>: the keys of the level map sorted ascending
  (\<^verbatim>\<open>sort((a, b) => a - b)\<close>), then the loop. A bar of the aggregator has numbers as
  keys, or \<^verbatim>\<open>NaN\<close> as its only key (tick size 0); the order used here puts \<open>None\<close>
  first. The difference of two distinct doubles does not round to zero, so the
  comparator orders the keys by their values under either rounding.
\<close>

definition finalizeBar_in :: "(rat \<Rightarrow> rat) \<Rightarrow> rat \<Rightarrow> bar \<Rightarrow> bar" where
  "finalizeBar_in rnd r b =
     b\<lparr>imbalances := imbalance_loop_in rnd r (map_of (levels b)) (sort (map fst (levels b)))\<rparr>"

definition finalizeBar :: "rat \<Rightarrow> bar \<Rightarrow> bar" where
  "finalizeBar r b = finalizeBar_in exact r b"

text \<open>
  \<^verbatim>\<open>_serializeBar\<close> copies the bar, its levels turned into a plain object with the
  same entries: the copy has the content of the bar.
\<close>

definition serializeBar :: "bar \<Rightarrow> bar" where
  "serializeBar b = b"

text \<open>The rotation step of \<^verbatim>\<open>ingest\<close>: the completed bars and the bar the tick goes to.\<close>

definition rotateBar_in :: "(rat \<Rightarrow> rat) \<Rightarrow> footprint \<Rightarrow> tick \<Rightarrow> bar list \<times> bar" where
  "rotateBar_in rnd fp t =
     (let barTs = barKey_in rnd (barDurationMs fp) (ts t)
      in case currentBar fp of
           None \<Rightarrow> (completedBars fp, newBar_in rnd (barDurationMs fp) (ts t) (price t))
         | Some cb \<Rightarrow>
             if js_neq (openTs cb) barTs then
               (let pushed = completedBars fp
                               @ [serializeBar (finalizeBar_in rnd (imbalanceRatio fp) cb)]
                in (if length pushed > maxBars fp then tl pushed else pushed,
                    newBar_in rnd (barDurationMs fp) (ts t) (price t)))
             else (completedBars fp, cb))"

definition rotateBar :: "footprint \<Rightarrow> tick \<Rightarrow> bar list \<times> bar" where
  "rotateBar fp t = rotateBar_in exact fp t"

text \<open>
  The level of a bar at a rounded price, as \<^verbatim>\<open>ingest\<close> sees it: a price without a
  level gets the level of zeros first.
\<close>

definition levelAt :: "bar \<Rightarrow> rat option \<Rightarrow> level" where
  "levelAt b k =
     (case map_of (levels b) k of None \<Rightarrow> \<lparr>bidVol = 0, askVol = 0, delta = 0\<rparr> | Some l \<Rightarrow> l)"

text \<open>
  The rest of \<^verbatim>\<open>ingest\<close>: OHLC, volume, and the level at the rounded price. Each of
  \<^verbatim>\<open>askVol\<close>, \<^verbatim>\<open>bidVol\<close>, \<^verbatim>\<open>delta\<close> and of the bar totals is an accumulator of its
  own, updated by its own \<^verbatim>\<open>+=\<close> or \<^verbatim>\<open>-=\<close>; \<open>half\<close> is \<^verbatim>\<open>size / 2\<close>.
\<close>

definition accumulate_in :: "(rat \<Rightarrow> rat) \<Rightarrow> rat \<Rightarrow> bar \<Rightarrow> tick \<Rightarrow> bar" where
  "accumulate_in rnd tk b0 t =
     (let b = b0\<lparr>high := (if price t > high b0 then price t else high b0),
                 low := (if price t < low b0 then price t else low b0),
                 b_close := price t,
                 totalVolume := rnd (totalVolume b0 + tsize t)\<rparr>;
          roundedPrice = roundToTick_in rnd tk (price t);
          lv = levelAt b roundedPrice;
          half = rnd (tsize t / 2)
      in case side t of
           Buy \<Rightarrow>
             b\<lparr>levels := AList.update roundedPrice
                            (lv\<lparr>askVol := rnd (askVol lv + tsize t),
                                delta := rnd (delta lv + tsize t)\<rparr>) (levels b),
               totalAskVol := rnd (totalAskVol b + tsize t),
               totalDelta := rnd (totalDelta b + tsize t)\<rparr>
         | Sell \<Rightarrow>
             b\<lparr>levels := AList.update roundedPrice
                            (lv\<lparr>bidVol := rnd (bidVol lv + tsize t),
                                delta := rnd (delta lv - tsize t)\<rparr>) (levels b),
               totalBidVol := rnd (totalBidVol b + tsize t),
               totalDelta := rnd (totalDelta b - tsize t)\<rparr>
         | Unknown \<Rightarrow>
             b\<lparr>levels := AList.update roundedPrice
                            (lv\<lparr>bidVol := rnd (bidVol lv + half),
                                askVol := rnd (askVol lv + half)\<rparr>) (levels b),
               totalBidVol := rnd (totalBidVol b + half),
               totalAskVol := rnd (totalAskVol b + half)\<rparr>)"

definition accumulate :: "rat \<Rightarrow> bar \<Rightarrow> tick \<Rightarrow> bar" where
  "accumulate tk b0 t = accumulate_in exact tk b0 t"

definition ingest_in :: "(rat \<Rightarrow> rat) \<Rightarrow> footprint \<Rightarrow> tick \<Rightarrow> footprint" where
  "ingest_in rnd fp t =
     (case rotateBar_in rnd fp t of
        (cbs, b) \<Rightarrow>
          fp\<lparr>completedBars := cbs, currentBar := Some (accumulate_in rnd (tickSize fp) b t)\<rparr>)"

definition ingest :: "footprint \<Rightarrow> tick \<Rightarrow> footprint" where
  "ingest fp t = ingest_in exact fp t"

text \<open>\<^verbatim>\<open>getCurrentBar\<close> finalizes the current bar in place and returns its copy.\<close>

definition getCurrentBar_in :: "(rat \<Rightarrow> rat) \<Rightarrow> footprint \<Rightarrow> footprint \<times> bar option" where
  "getCurrentBar_in rnd fp =
     (case currentBar fp of
        None \<Rightarrow> (fp, None)
      | Some cb \<Rightarrow>
          (fp\<lparr>currentBar := Some (finalizeBar_in rnd (imbalanceRatio fp) cb)\<rparr>,
           Some (serializeBar (finalizeBar_in rnd (imbalanceRatio fp) cb))))"

definition getCurrentBar :: "footprint \<Rightarrow> footprint \<times> bar option" where
  "getCurrentBar fp = getCurrentBar_in exact fp"

text \<open>The invariant of a level and of a bar.\<close>

definition level_ok :: "level \<Rightarrow> bool" where
  "level_ok l = (delta l = askVol l - bidVol l)"

definition bar_ok :: "bar \<Rightarrow> bool" where
  "bar_ok b =
     (totalDelta b = totalAskVol b - totalBidVol b
      \<and> list_all (\<lambda>e. level_ok (snd e)) (levels b)
      \<and> high b \<ge> max (b_open b) (b_close b)
      \<and> max (b_open b) (b_close b) \<ge> low b
      \<and> min (b_open b) (b_close b) \<ge> low b)"

definition all_bars_ok :: "footprint \<Rightarrow> bool" where
  "all_bars_ok fp =
     ((case currentBar fp of None \<Rightarrow> True | Some b \<Rightarrow> bar_ok b)
      \<and> list_all bar_ok (completedBars fp))"

text \<open>Each price is the key of one level only, in every bar the aggregator holds.\<close>

definition keys_ok :: "footprint \<Rightarrow> bool" where
  "keys_ok fp =
     ((case currentBar fp of None \<Rightarrow> True | Some b \<Rightarrow> distinct (map fst (levels b)))
      \<and> list_all (\<lambda>b. distinct (map fst (levels b))) (completedBars fp))"

text \<open>The part of the invariant on the prices of a bar.\<close>

definition ohlc_ok :: "bar \<Rightarrow> bool" where
  "ohlc_ok b = (high b \<ge> max (b_open b) (b_close b) \<and> max (b_open b) (b_close b) \<ge> low b)"

definition all_bars_ohlc :: "footprint \<Rightarrow> bool" where
  "all_bars_ohlc fp =
     ((case currentBar fp of None \<Rightarrow> True | Some b \<Rightarrow> ohlc_ok b)
      \<and> list_all ohlc_ok (completedBars fp))"

section \<open>CVD calculator\<close>

record cvd_point =
  p_ts :: rat
  p_cvd :: rat
  p_barDelta :: rat

text \<open>
  \<open>currentBarTs\<close> is \<^verbatim>\<open>null\<close> (\<open>None\<close>) or a number, possibly \<^verbatim>\<open>NaN\<close>
  (\<open>Some None\<close>); \<open>sessionStart\<close> holds a reading of the clock.
\<close>

record cvd =
  sessionCvd :: rat
  barCvd :: rat
  history :: "cvd_point list"
  maxHistory :: nat
  sessionStart :: rat
  currentBarTs :: "rat option option"
  cvd_barDurationMs :: rat

definition new_CvdCalculator :: "rat \<Rightarrow> cvd" where
  "new_CvdCalculator now =
     \<lparr>sessionCvd = 0, barCvd = 0, history = [], maxHistory = 500, sessionStart = now,
      currentBarTs = None, cvd_barDurationMs = 60000\<rparr>"

definition tick_delta :: "tick \<Rightarrow> rat" where
  "tick_delta t = (case side t of Buy \<Rightarrow> tsize t | Sell \<Rightarrow> - tsize t | Unknown \<Rightarrow> 0)"

definition cvd_ingest :: "cvd \<Rightarrow> tick \<Rightarrow> cvd \<times> cvd_point" where
  "cvd_ingest c t =
     (let d = tick_delta t;
          c1 = c\<lparr>sessionCvd := sessionCvd c + d\<rparr>;
          barTs = barKey (cvd_barDurationMs c1) (ts t);
          c2 = (if (case currentBarTs c1 of None \<Rightarrow> True | Some k \<Rightarrow> js_neq k barTs)
                then c1\<lparr>currentBarTs := Some barTs, barCvd := 0\<rparr> else c1);
          c3 = c2\<lparr>barCvd := barCvd c2 + d\<rparr>;
          point = \<lparr>p_ts = ts t, p_cvd = sessionCvd c3, p_barDelta = barCvd c3\<rparr>;
          h = history c3 @ [point]
      in (c3\<lparr>history := (if length h > maxHistory c3 then tl h else h)\<rparr>, point))"

text \<open>\<^verbatim>\<open>resetSession\<close>; \<open>now\<close> is the reading of \<^verbatim>\<open>Date.now()\<close>.\<close>

definition resetSession :: "cvd \<Rightarrow> rat \<Rightarrow> cvd" where
  "resetSession c now = c\<lparr>sessionCvd := 0, history := [], sessionStart := now\<rparr>"

section \<open>DOM builder\<close>

text \<open>
  The four \<^verbatim>\<open>Map\<close>s from price to size are association lists in insertion order
  (\<open>AList.update\<close> keeps the place of a key that is present and appends a new one, as
  \<^verbatim>\<open>Map.set\<close> does). \<open>maxLevels\<close> is the constructor's \<^verbatim>\<open>levels\<close>.
\<close>

record dom_builder =
  maxLevels :: int
  bids :: "(rat \<times> rat) list"
  asks :: "(rat \<times> rat) list"
  prevBids :: "(rat \<times> rat) list"
  prevAsks :: "(rat \<times> rat) list"

definition new_DomBuilder :: "int \<Rightarrow> dom_builder" where
  "new_DomBuilder n = \<lparr>maxLevels = n, bids = [], asks = [], prevBids = [], prevAsks = []\<rparr>"

text \<open>The loop \<^verbatim>\<open>for (const [price, size] of xs) if (size > 0) m.set(price, size)\<close>.\<close>

fun setLevels :: "(rat \<times> rat) list \<Rightarrow> (rat \<times> rat) list \<Rightarrow> (rat \<times> rat) list" where
  "setLevels m [] = m"
| "setLevels m ((p, s) # xs) = setLevels (if s > 0 then AList.update p s m else m) xs"

definition update :: "dom_builder \<Rightarrow> (rat \<times> rat) list \<Rightarrow> (rat \<times> rat) list \<Rightarrow> dom_builder" where
  "update d newBids newAsks =
     d\<lparr>prevBids := bids d, prevAsks := asks d,
       bids := setLevels [] newBids, asks := setLevels [] newAsks\<rparr>"

datatype change = Added | Modified | Removed | Unchanged

datatype book_side = Bid | Ask

record dom_level =
  l_price :: rat
  l_size :: rat
  l_side :: book_side
  l_change :: change
  l_prevSize :: "rat option"

record dom_snapshot =
  s_bids :: "dom_level list"
  s_asks :: "dom_level list"
  stackedBids :: "dom_level list"
  stackedAsks :: "dom_level list"
  pulledBids :: "dom_level list"
  pulledAsks :: "dom_level list"
  bestBid :: "rat option"
  bestAsk :: "rat option"
  spread :: "rat option"

text \<open>\<^verbatim>\<open>xs.slice(0, n)\<close>: a negative \<open>n\<close> counts from the end.\<close>

definition slice0 :: "int \<Rightarrow> 'a list \<Rightarrow> 'a list" where
  "slice0 n xs = (if n \<ge> 0 then take (nat n) xs else take (length xs - nat (- n)) xs)"

definition classify :: "(rat \<times> rat) list \<Rightarrow> book_side \<Rightarrow> rat \<times> rat \<Rightarrow> dom_level" where
  "classify prev sd e =
     (case e of (p, s) \<Rightarrow>
        \<lparr>l_price = p, l_size = s, l_side = sd,
         l_change = (case map_of prev p of
                       None \<Rightarrow> Added
                     | Some prevSize \<Rightarrow>
                         if s > prevSize then Modified
                         else if s < prevSize then Modified
                         else Unchanged),
         l_prevSize = map_of prev p\<rparr>)"

definition buildLevels :: "int \<Rightarrow> (rat \<times> rat) list \<Rightarrow> (rat \<times> rat) list \<Rightarrow> book_side \<Rightarrow> dom_level list" where
  "buildLevels n cur prev sd =
     map (classify prev sd)
       (slice0 n (case sd of Bid \<Rightarrow> sort_key (\<lambda>e. - fst e) cur | Ask \<Rightarrow> sort_key fst cur))"

definition calcLargeThreshold :: "dom_builder \<Rightarrow> rat" where
  "calcLargeThreshold d =
     (let allSizes = map snd (bids d) @ map snd (asks d)
      in if length allSizes = 0 then 100
         else (foldl (+) 0 allSizes / of_nat (length allSizes)) * 3)"

definition removedLevel :: "book_side \<Rightarrow> rat \<times> rat \<Rightarrow> dom_level" where
  "removedLevel sd e =
     \<lparr>l_price = fst e, l_size = snd e, l_side = sd, l_change = Removed, l_prevSize = None\<rparr>"

definition pulled :: "rat \<Rightarrow> (rat \<times> rat) list \<Rightarrow> (rat \<times> rat) list \<Rightarrow> book_side \<Rightarrow> dom_level list" where
  "pulled thr prev cur sd =
     map (removedLevel sd) (filter (\<lambda>e. snd e \<ge> thr \<and> map_of cur (fst e) = None) prev)"

definition snapshot :: "dom_builder \<Rightarrow> dom_snapshot" where
  "snapshot d =
     (let bs = buildLevels (maxLevels d) (bids d) (prevBids d) Bid;
          as = buildLevels (maxLevels d) (asks d) (prevAsks d) Ask;
          largeThreshold = calcLargeThreshold d
      in \<lparr>s_bids = bs, s_asks = as,
          stackedBids = filter (\<lambda>l. l_size l \<ge> largeThreshold \<and> l_change l \<noteq> Removed) bs,
          stackedAsks = filter (\<lambda>l. l_size l \<ge> largeThreshold \<and> l_change l \<noteq> Removed) as,
          pulledBids = pulled largeThreshold (prevBids d) (bids d) Bid,
          pulledAsks = pulled largeThreshold (prevAsks d) (asks d) Ask,
          bestBid = (case bs of [] \<Rightarrow> None | b # _ \<Rightarrow> Some (l_price b)),
          bestAsk = (case as of [] \<Rightarrow> None | a # _ \<Rightarrow> Some (l_price a)),
          spread = (case (bs, as) of (b # _, a # _) \<Rightarrow> Some (l_price a - l_price b) | _ \<Rightarrow> None)\<rparr>)"

text \<open>
  What one side of the book reports after an update.
  \<open>retained new p\<close>: the update gives the price \<open>p\<close> with a positive size.
  \<open>sideReport\<close>, for the previous levels \<open>prev\<close>, the levels \<open>new\<close> given to the update,
  the ranked view \<open>view\<close> and the separate list \<open>gone\<close> of one side:
  the list \<open>gone\<close> holds, as removed, exactly the previous levels that are not retained
  and whose size reaches the threshold \<open>thr\<close>; each level of the view is a retained
  one, classified by its previous size, and is not in \<open>gone\<close>; and the view holds
  every retained price when the book has at most \<open>n\<close> levels.
\<close>

definition retained :: "(rat \<times> rat) list \<Rightarrow> rat \<Rightarrow> bool" where
  "retained new p = list_ex (\<lambda>e. fst e = p \<and> snd e > 0) new"

definition sideReport ::
  "rat \<Rightarrow> int \<Rightarrow> book_side \<Rightarrow> (rat \<times> rat) list \<Rightarrow> (rat \<times> rat) list \<Rightarrow> (rat \<times> rat) list
     \<Rightarrow> dom_level list \<Rightarrow> dom_level list \<Rightarrow> bool" where
  "sideReport thr n sd prev new cur view gone =
     ((\<forall>p. map_of cur p \<noteq> None \<longleftrightarrow> retained new p)
      \<and> gone = map (removedLevel sd) (filter (\<lambda>e. snd e \<ge> thr \<and> \<not> retained new (fst e)) prev)
      \<and> (\<forall>e \<in> set view.
            retained new (l_price e)
            \<and> map_of cur (l_price e) = Some (l_size e) \<and> l_size e > 0 \<and> l_side e = sd
            \<and> l_prevSize e = map_of prev (l_price e)
            \<and> l_change e = (case map_of prev (l_price e) of
                              None \<Rightarrow> Added
                            | Some ps \<Rightarrow> if l_size e = ps then Unchanged else Modified)
            \<and> l_price e \<notin> l_price ` set gone)
      \<and> (int (length cur) \<le> n \<longrightarrow> l_price ` set view = {p. retained new p}))"

section \<open>Tape metrics\<close>

record absorption =
  totalVol :: rat
  priceRange :: rat
  a_ts :: rat

record metrics =
  largePrintThreshold :: rat
  absorptionWindow :: rat
  speedWindow :: rat
  recentTrades :: "tick list"
  tapeSpeed :: nat
  absorptionEvents :: "absorption list"

record metrics_result =
  r_tapeSpeed :: nat
  isLarge :: bool
  r_absorption :: "absorption option"

text \<open>The constructor; an absent configuration value is \<open>None\<close>.\<close>

definition new_MetricsCalculator :: "rat option \<Rightarrow> rat option \<Rightarrow> metrics" where
  "new_MetricsCalculator thr win =
     \<lparr>largePrintThreshold = (case thr of None \<Rightarrow> 50 | Some x \<Rightarrow> x),
      absorptionWindow = (case win of None \<Rightarrow> 5000 | Some x \<Rightarrow> x),
      speedWindow = 1000, recentTrades = [], tapeSpeed = 0, absorptionEvents = []\<rparr>"

text \<open>
  The absorption test on the buffered trades: \<^verbatim>\<open>slice(-20)\<close>, the sum of the sizes from
  0, and the spread of \<^verbatim>\<open>Math.max\<close> and \<^verbatim>\<open>Math.min\<close> over the prices. The window is
  never empty here, the buffer holding at least ten trades.
\<close>

definition absorptionCheck :: "rat \<Rightarrow> rat \<Rightarrow> tick list \<Rightarrow> absorption option" where
  "absorptionCheck thr now recent =
     (if length recent \<ge> 10 then
        (let window = drop (length recent - 20) recent;
             tv = foldl (\<lambda>a t. a + tsize t) 0 window
         in case map price window of
              [] \<Rightarrow> None
            | p # ps \<Rightarrow>
                (let pr = fold max ps p - fold min ps p
                 in if pr < 2 * (1 / 4) \<and> tv > thr * 5
                    then Some \<lparr>totalVol = tv, priceRange = pr, a_ts = now\<rparr>
                    else None))
      else None)"

definition metrics_ingest :: "metrics \<Rightarrow> tick \<Rightarrow> metrics \<times> metrics_result" where
  "metrics_ingest m t =
     (let now = ts t;
          speedCutoff = now - speedWindow m;
          absCutoff = now - absorptionWindow m;
          recent = filter (\<lambda>x. ts x > absCutoff) (recentTrades m)
                   @ [\<lparr>ts = now, price = price t, tsize = tsize t, side = side t\<rparr>];
          sp = length (filter (\<lambda>x. ts x > speedCutoff) recent);
          large = (tsize t \<ge> largePrintThreshold m)
      in (m\<lparr>recentTrades := recent, tapeSpeed := sp\<rparr>,
          \<lparr>r_tapeSpeed = sp, isLarge = large,
           r_absorption = absorptionCheck (largePrintThreshold m) now recent\<rparr>))"

text \<open>
  The condition as the specification words it, for a tick size \<open>tk\<close>, over the window
  of the most recent 20 trades: the price range at most two ticks and the volume above
  five large prints.
\<close>

definition spec_absorption_cond :: "rat \<Rightarrow> rat \<Rightarrow> tick list \<Rightarrow> bool" where
  "spec_absorption_cond tk thr window =
     (Max (set (map price window)) - Min (set (map price window)) \<le> 2 * tk
      \<and> sum_list (map tsize window) > thr * 5)"

section \<open>Alert evaluator\<close>

datatype alert_type = LargePrint | DeltaThreshold | TapeSpeed | DomImbalance

datatype severity = High | Medium | Low

datatype alert_data =
  PrintData rat rat side | CvdData rat | SpeedData nat | ImbalanceData rat book_side

text \<open>
  An alert without its \<^verbatim>\<open>id\<close> (a random UUID) and its message text; \<open>al_ts\<close> is the
  reading of the clock.
\<close>

record alert =
  al_type :: alert_type
  al_ts :: rat
  al_severity :: severity
  al_data :: alert_data

record alert_config =
  deltaThreshold :: rat
  largePrintSize :: rat
  tapeSpeedThreshold :: rat
  domImbalanceRatio :: rat

text \<open>\<open>recentAlerts\<close> is the \<^verbatim>\<open>Map\<close> from alert type to the time it last fired.\<close>

record alert_evaluator =
  config :: alert_config
  recentAlerts :: "alert_type \<rightharpoonup> rat"
  throttleMs :: rat

definition new_AlertEvaluator :: "alert_config \<Rightarrow> alert_evaluator" where
  "new_AlertEvaluator cfg = \<lparr>config = cfg, recentAlerts = Map.empty, throttleMs = 3000\<rparr>"

definition default_config :: alert_config where
  "default_config =
     \<lparr>deltaThreshold = 500, largePrintSize = 50, tapeSpeedThreshold = 30, domImbalanceRatio = 5\<rparr>"

text \<open>
  \<^verbatim>\<open>_canAlert(type)\<close>; \<open>now\<close> is the reading of \<^verbatim>\<open>Date.now()\<close>, one reading for
  all the reads of one \<^verbatim>\<open>evaluate\<close> call. \<^verbatim>\<open>!last\<close> holds for a missing entry and
  for a stored 0.
\<close>

definition throttleOpen :: "alert_evaluator \<Rightarrow> rat \<Rightarrow> alert_type \<Rightarrow> bool" where
  "throttleOpen ev now ty =
     (case recentAlerts ev ty of None \<Rightarrow> True | Some l \<Rightarrow> l = 0 \<or> now - l > throttleMs ev)"

definition canAlert :: "alert_evaluator \<Rightarrow> rat \<Rightarrow> alert_type \<Rightarrow> alert_evaluator \<times> bool" where
  "canAlert ev now ty =
     (if throttleOpen ev now ty
      then (ev\<lparr>recentAlerts := (recentAlerts ev)(ty \<mapsto> now)\<rparr>, True)
      else (ev, False))"

text \<open>The argument of \<^verbatim>\<open>evaluate\<close>; a member that is missing or null is \<open>None\<close>.\<close>

record eval_context =
  c_tick :: tick
  c_cvdPoint :: "cvd_point option"
  c_metrics :: "metrics_result option"
  c_dom :: "dom_snapshot option"

text \<open>
  The condition in front of each \<^verbatim>\<open>_canAlert\<close> call of \<^verbatim>\<open>evaluate\<close>, and the payload
  of the alert pushed when the call answers true.
\<close>

definition bestSize :: "dom_level list \<Rightarrow> rat" where
  "bestSize ls = (case ls of [] \<Rightarrow> 0 | l # _ \<Rightarrow> l_size l)"

definition qualifies :: "alert_config \<Rightarrow> eval_context \<Rightarrow> alert_type \<Rightarrow> bool" where
  "qualifies cfg ctx ty =
     (case ty of
        LargePrint \<Rightarrow> (case c_metrics ctx of None \<Rightarrow> False | Some m \<Rightarrow> isLarge m)
      | DeltaThreshold \<Rightarrow>
          (case c_cvdPoint ctx of None \<Rightarrow> False | Some pt \<Rightarrow> \<bar>p_cvd pt\<bar> \<ge> deltaThreshold cfg)
      | TapeSpeed \<Rightarrow>
          (case c_metrics ctx of None \<Rightarrow> False
           | Some m \<Rightarrow> of_nat (r_tapeSpeed m) \<ge> tapeSpeedThreshold cfg)
      | DomImbalance \<Rightarrow>
          (case c_dom ctx of None \<Rightarrow> False
           | Some dm \<Rightarrow>
               (let bestBidSize = bestSize (s_bids dm); bestAskSize = bestSize (s_asks dm)
                in bestBidSize > 0 \<and> bestAskSize > 0
                   \<and> max (bestBidSize / bestAskSize) (bestAskSize / bestBidSize)
                       \<ge> domImbalanceRatio cfg)))"

definition makeAlert :: "rat \<Rightarrow> eval_context \<Rightarrow> alert_type \<Rightarrow> alert" where
  "makeAlert now ctx ty =
     (case ty of
        LargePrint \<Rightarrow>
          \<lparr>al_type = LargePrint, al_ts = now, al_severity = High,
           al_data = PrintData (price (c_tick ctx)) (tsize (c_tick ctx)) (side (c_tick ctx))\<rparr>
      | DeltaThreshold \<Rightarrow>
          \<lparr>al_type = DeltaThreshold, al_ts = now, al_severity = Medium,
           al_data = CvdData (case c_cvdPoint ctx of None \<Rightarrow> 0 | Some pt \<Rightarrow> p_cvd pt)\<rparr>
      | TapeSpeed \<Rightarrow>
          \<lparr>al_type = TapeSpeed, al_ts = now, al_severity = Medium,
           al_data = SpeedData (case c_metrics ctx of None \<Rightarrow> 0 | Some m \<Rightarrow> r_tapeSpeed m)\<rparr>
      | DomImbalance \<Rightarrow>
          (let bestBidSize = (case c_dom ctx of None \<Rightarrow> 0 | Some dm \<Rightarrow> bestSize (s_bids dm));
               bestAskSize = (case c_dom ctx of None \<Rightarrow> 0 | Some dm \<Rightarrow> bestSize (s_asks dm))
           in \<lparr>al_type = DomImbalance, al_ts = now, al_severity = Low,
               al_data = ImbalanceData (max (bestBidSize / bestAskSize) (bestAskSize / bestBidSize))
                           (if bestBidSize > bestAskSize then Bid else Ask)\<rparr>))"

text \<open>
  One check of \<^verbatim>\<open>evaluate\<close>: \<^verbatim>\<open>_canAlert\<close> is called only when the condition
  holds (\<^verbatim>\<open>&&\<close> evaluates its right side only then), and the alert is appended when it
  answers true.
\<close>

definition checkType :: "rat \<Rightarrow> eval_context \<Rightarrow> alert_type \<Rightarrow> alert_evaluator \<times> alert list \<Rightarrow> alert_evaluator \<times> alert list" where
  "checkType now ctx ty st =
     (case st of (ev, alerts) \<Rightarrow>
        if qualifies (config ev) ctx ty then
          (case canAlert ev now ty of
             (ev', ok) \<Rightarrow> (ev', if ok then alerts @ [makeAlert now ctx ty] else alerts))
        else (ev, alerts))"

text \<open>\<^verbatim>\<open>evaluate\<close>: the four checks in the order of the source.\<close>

definition evaluate :: "alert_evaluator \<Rightarrow> rat \<Rightarrow> eval_context \<Rightarrow> alert_evaluator \<times> alert list" where
  "evaluate ev now ctx =
     checkType now ctx DomImbalance
       (checkType now ctx TapeSpeed
         (checkType now ctx DeltaThreshold
           (checkType now ctx LargePrint (ev, []))))"

text \<open>
  A run of evaluations, each with its clock reading: the evaluator after the run and
  the alerts of each evaluation, in order.
\<close>

fun evaluations :: "alert_evaluator \<Rightarrow> (rat \<times> eval_context) list \<Rightarrow> alert_evaluator \<times> alert list list" where
  "evaluations ev [] = (ev, [])"
| "evaluations ev ((now, ctx) # rest) =
     (case evaluate ev now ctx of
        (ev', alerts) \<Rightarrow> (case evaluations ev' rest of (ev'', out) \<Rightarrow> (ev'', alerts # out)))"

definition fires :: "alert_type \<Rightarrow> alert list \<Rightarrow> bool" where
  "fires ty alerts = (ty \<in> set (map al_type alerts))"

section \<open>Ring buffer\<close>

text \<open>
  The buffer is the array of \<open>capacity\<close> slots, an empty slot (\<^verbatim>\<open>undefined\<close>) being
  \<open>None\<close>. \<open>head\<close> is a number that becomes \<^verbatim>\<open>NaN\<close> (\<open>None\<close>) when the capacity
  is 0. \<open>rsize\<close> is the field \<^verbatim>\<open>size\<close>.
\<close>

record 'a ring =
  capacity :: nat
  buffer :: "'a option list"
  head :: "nat option"
  rsize :: nat

definition new_RingBuffer :: "nat \<Rightarrow> 'a ring" where
  "new_RingBuffer c = \<lparr>capacity = c, buffer = replicate c None, head = Some 0, rsize = 0\<rparr>"

text \<open>\<^verbatim>\<open>a[i] = v\<close>: a write past the end extends the array with empty slots.\<close>

definition store :: "'a option list \<Rightarrow> nat \<Rightarrow> 'a \<Rightarrow> 'a option list" where
  "store a i v =
     (if i < length a then a[i := Some v] else a @ replicate (i - length a) None @ [Some v])"

text \<open>\<^verbatim>\<open>(pos + 1) % capacity\<close>, \<^verbatim>\<open>NaN\<close> for a \<^verbatim>\<open>NaN\<close> position or a zero capacity.\<close>

definition advance :: "nat \<Rightarrow> nat option \<Rightarrow> nat option" where
  "advance c pos =
     (case pos of None \<Rightarrow> None | Some i \<Rightarrow> if c = 0 then None else Some ((i + 1) mod c))"

text \<open>\<^verbatim>\<open>push(item)\<close>; a write at index \<^verbatim>\<open>NaN\<close> touches no slot.\<close>

definition push :: "'a ring \<Rightarrow> 'a \<Rightarrow> 'a ring" where
  "push rb item =
     rb\<lparr>buffer := (case head rb of None \<Rightarrow> buffer rb | Some h \<Rightarrow> store (buffer rb) h item),
        head := advance (capacity rb) (head rb),
        rsize := (if rsize rb < capacity rb then rsize rb + 1 else rsize rb)\<rparr>"

definition getHead :: "'a ring \<Rightarrow> nat option" where
  "getHead rb = head rb"

definition clear :: "'a ring \<Rightarrow> 'a ring" where
  "clear rb = rb\<lparr>head := Some 0, rsize := 0\<rparr>"

text \<open>\<^verbatim>\<open>buffer[pos]\<close>: a read outside the array or at \<^verbatim>\<open>NaN\<close> is \<^verbatim>\<open>undefined\<close>.\<close>

definition slot :: "'a option list \<Rightarrow> nat option \<Rightarrow> 'a option" where
  "slot a pos = (case pos of None \<Rightarrow> None | Some i \<Rightarrow> if i < length a then a ! i else None)"

text \<open>
  The loop of \<^verbatim>\<open>drainSince\<close>: \<^verbatim>\<open>while (pos !== head)\<close>. It need not end (a cursor
  that is no slot index of the buffer, a \<^verbatim>\<open>NaN\<close> head), so its result is an option,
  \<open>None\<close> for a loop that runs forever.
\<close>

partial_function (option) drainLoop :: "'a ring \<Rightarrow> nat option \<Rightarrow> 'a list \<Rightarrow> 'a list option" where
  "drainLoop rb pos items =
     (if pos \<noteq> None \<and> pos = head rb then Some items
      else drainLoop rb (advance (capacity rb) pos)
             (case slot (buffer rb) pos of None \<Rightarrow> items | Some x \<Rightarrow> items @ [x]))"

declare drainLoop.simps [code]

definition drainSince :: "'a ring \<Rightarrow> nat option \<Rightarrow> 'a list option" where
  "drainSince rb lastHead =
     (if lastHead \<noteq> None \<and> lastHead = head rb then Some [] else drainLoop rb lastHead [])"

text \<open>A buffer as the constructor and \<^verbatim>\<open>push\<close> leave it: the head is a slot index.\<close>

definition ring_wf :: "'a ring \<Rightarrow> bool" where
  "ring_wf rb =
     (capacity rb > 0 \<and> length (buffer rb) = capacity rb
      \<and> (case head rb of None \<Rightarrow> False | Some h \<Rightarrow> h < capacity rb))"

section \<open>Example inputs\<close>

text \<open>A bar with 30 sold at 100.5 and 5 bought at 100.\<close>

definition example_bar :: bar where
  "example_bar =
     (newBar 60000 100 (201 / 2))
       \<lparr>levels := [(Some (201 / 2), \<lparr>bidVol = 30, askVol = 0, delta = - 30\<rparr>),
                   (Some 100, \<lparr>bidVol = 0, askVol = 5, delta = 5\<rparr>)]\<rparr>"

text \<open>
  A book with bids of 50 at 100 and 500 at 99 and an ask of 40 at 101, and an update
  that raises the bid at 100 to 60, adds a bid of 10 at 98 and gives 99 with size 0.
\<close>

definition example_dom :: dom_builder where
  "example_dom = update (new_DomBuilder 10) [(100, 50), (99, 500)] [(101, 40)]"

definition example_newBids :: "(rat \<times> rat) list" where
  "example_newBids = [(100, 60), (98, 10), (99, 0)]"

text \<open>
  A tape analyzer with the default thresholds (large print 50, window 5 s) that has
  ingested nine buys of size 30 at price 100, one per millisecond from 1 to 9.
\<close>

definition example_metrics :: metrics where
  "example_metrics =
     foldl (\<lambda>m t. fst (metrics_ingest m t)) (new_MetricsCalculator None None)
       (map (\<lambda>t. \<lparr>ts = t, price = 100, tsize = 30, side = Buy\<rparr>) [1, 2, 3, 4, 5, 6, 7, 8, 9])"

text \<open>An evaluation context whose tape metrics report a large print, and nothing else.\<close>

definition example_context :: eval_context where
  "example_context =
     \<lparr>c_tick = \<lparr>ts = 1000, price = 100, tsize = 60, side = Buy\<rparr>,
      c_cvdPoint = None,
      c_metrics = Some \<lparr>r_tapeSpeed = 1, isLarge = True, r_absorption = None\<rparr>,
      c_dom = None\<rparr>"

section \<open>Rounding to binary64\<close>

text \<open>
  The doubles that the literals \<^verbatim>\<open>0.1\<close>, \<^verbatim>\<open>0.2\<close> and \<^verbatim>\<open>0.3\<close> denote, the sum
  \<^verbatim>\<open>0.1 + 0.2 = 0.30000000000000004\<close>, and a third.
\<close>

lemma binary64_decimals:
  "binary64 (1 / 10) = 3602879701896397 / 36028797018963968"
  "binary64 (1 / 5) = 3602879701896397 / 18014398509481984"
  "binary64 (3 / 10) = 5404319552844595 / 18014398509481984"
  "binary64 (binary64 (1 / 10) + binary64 (1 / 5)) = 1351079888211149 / 4503599627370496"
  "binary64 (1 / 3) = 6004799503160661 / 18014398509481984"
  "binary64 (- (1 / 10)) = - (3602879701896397 / 36028797018963968)"
  by code_simp+

text \<open>A number that is a double is its own rounding.\<close>

lemma binary64_fixed:
  "binary64 0 = 0" "binary64 1 = 1" "binary64 100 = 100" "binary64 400 = 400"
  "binary64 60000 = 60000" "binary64 (1 / 4) = 1 / 4" "binary64 (2 ^ 53) = 2 ^ 53"
  "binary64 (3602879701896397 / 72057594037927936) = 3602879701896397 / 72057594037927936"
  "binary64 (3602879701896397 / 36028797018963968) = 3602879701896397 / 36028797018963968"
  "binary64 (3602879701896397 / 18014398509481984) = 3602879701896397 / 18014398509481984"
  "binary64 (5404319552844595 / 18014398509481984) = 5404319552844595 / 18014398509481984"
  "binary64 (7205759403792795 / 72057594037927936) = 7205759403792795 / 72057594037927936"
  "binary64 (7205759403792793 / 36028797018963968) = 7205759403792793 / 36028797018963968"
  "binary64 (- (3602879701896397 / 36028797018963968)) = - (3602879701896397 / 36028797018963968)"
  by code_simp+

text \<open>
  A number half way between two doubles goes to the one with the even significand:
  \<open>2^53 + 1\<close> down and \<open>2^53 + 3\<close> up, and so the exact sums \<^verbatim>\<open>0.05 + 0.1\<close>,
  \<^verbatim>\<open>0.1 + 0.2\<close>, \<^verbatim>\<open>0.1 + 0.3\<close> and \<^verbatim>\<open>0.30000000000000004 + 0.3\<close> of doubles,
  each of 54 significant bits.
\<close>

lemma binary64_ties:
  "binary64 (2 ^ 53 + 1) = 2 ^ 53"
  "binary64 (2 ^ 53 + 3) = 2 ^ 53 + 4"
  "binary64 (10808639105689191 / 72057594037927936) = 1351079888211149 / 9007199254740992"
  "binary64 (10808639105689191 / 36028797018963968) = 1351079888211149 / 4503599627370496"
  "binary64 (14411518807585587 / 36028797018963968) = 3602879701896397 / 9007199254740992"
  "binary64 (10808639105689191 / 18014398509481984) = 1351079888211149 / 2251799813685248"
  by code_simp+

text \<open>The quotients \<^verbatim>\<open>1 / 60000\<close> and \<^verbatim>\<open>2 / 60000\<close> of a timestamp by the bar duration.\<close>

lemma binary64_ms:
  "binary64 (1 / 60000) = 2459565876494607 / 147573952589676412928"
  "binary64 (1 / 30000) = 2459565876494607 / 73786976294838206464"
  by code_simp+

lemma floor_rat_numeral:
  "\<lfloor>numeral a / numeral b :: rat\<rfloor> = numeral a div numeral b"
  using floor_divide_of_int_eq [of "numeral a" "numeral b", where ?'a = rat] by simp

section \<open>The aggregator in exact arithmetic\<close>

text \<open>
  With the rounding \<open>exact\<close> each function of the footprint aggregator is the source
  text read over the rationals.
\<close>

lemma barKey_exact:
  "barKey d t = (if d = 0 then None else Some (of_int \<lfloor>t / d\<rfloor> * d))"
  by (simp add: barKey_def barKey_in_def exact_def)

lemma roundToTick_exact:
  "roundToTick tk p = (if tk = 0 then None else Some (of_int \<lfloor>p / tk + 1 / 2\<rfloor> * tk))"
  by (simp add: roundToTick_def roundToTick_in_def exact_def)

lemma newBar_exact:
  "newBar d t p =
     (let barOpen = barKey d t
      in \<lparr>openTs = barOpen, closeTs = map_option (\<lambda>b. b + d) barOpen,
          b_open = p, high = p, low = p, b_close = p,
          totalVolume = 0, totalDelta = 0, totalBidVol = 0, totalAskVol = 0,
          levels = [], imbalances = []\<rparr>)"
  by (simp add: newBar_def newBar_in_def barKey_def exact_def)

lemma checkPair_exact:
  "checkPair r p lower q upper =
     (if bidVol upper > 0 \<and> askVol lower / bidVol upper \<ge> r
      then [\<lparr>imb_price = p, imb_ratio = askVol lower / bidVol upper, imb_side = AskImb\<rparr>]
      else [])
     @ (if askVol lower > 0 \<and> bidVol upper / askVol lower \<ge> r
        then [\<lparr>imb_price = q, imb_ratio = bidVol upper / askVol lower, imb_side = BidImb\<rparr>]
        else [])"
  by (simp add: checkPair_def checkPair_in_def exact_def)

lemma imbalance_loop_exact:
  "imbalance_loop r lv (p # q # ps) =
     (case (lv p, lv q) of
        (Some lower, Some upper) \<Rightarrow> checkPair r p lower q upper
      | _ \<Rightarrow> [])
     @ imbalance_loop r lv (q # ps)"
  "imbalance_loop r lv [] = []"
  "imbalance_loop r lv [p] = []"
  by (simp_all add: imbalance_loop_def checkPair_def split: option.splits)

lemma finalizeBar_exact:
  "finalizeBar r b =
     b\<lparr>imbalances := imbalance_loop r (map_of (levels b)) (sort (map fst (levels b)))\<rparr>"
  by (simp add: finalizeBar_def finalizeBar_in_def imbalance_loop_def)

lemma rotateBar_exact:
  "rotateBar fp t =
     (let barTs = barKey (barDurationMs fp) (ts t)
      in case currentBar fp of
           None \<Rightarrow> (completedBars fp, newBar (barDurationMs fp) (ts t) (price t))
         | Some cb \<Rightarrow>
             if js_neq (openTs cb) barTs then
               (let pushed = completedBars fp @ [serializeBar (finalizeBar (imbalanceRatio fp) cb)]
                in (if length pushed > maxBars fp then tl pushed else pushed,
                    newBar (barDurationMs fp) (ts t) (price t)))
             else (completedBars fp, cb))"
  by (simp add: rotateBar_def rotateBar_in_def barKey_def newBar_def finalizeBar_def
        split: option.splits)

lemma accumulate_exact:
  "accumulate tk b0 t =
     (let b = b0\<lparr>high := (if price t > high b0 then price t else high b0),
                 low := (if price t < low b0 then price t else low b0),
                 b_close := price t,
                 totalVolume := totalVolume b0 + tsize t\<rparr>;
          roundedPrice = roundToTick tk (price t);
          lv = levelAt b roundedPrice
      in case side t of
           Buy \<Rightarrow>
             b\<lparr>levels := AList.update roundedPrice
                            (lv\<lparr>askVol := askVol lv + tsize t, delta := delta lv + tsize t\<rparr>) (levels b),
               totalAskVol := totalAskVol b + tsize t,
               totalDelta := totalDelta b + tsize t\<rparr>
         | Sell \<Rightarrow>
             b\<lparr>levels := AList.update roundedPrice
                            (lv\<lparr>bidVol := bidVol lv + tsize t, delta := delta lv - tsize t\<rparr>) (levels b),
               totalBidVol := totalBidVol b + tsize t,
               totalDelta := totalDelta b - tsize t\<rparr>
         | Unknown \<Rightarrow>
             b\<lparr>levels := AList.update roundedPrice
                            (lv\<lparr>bidVol := bidVol lv + tsize t / 2, askVol := askVol lv + tsize t / 2\<rparr>)
                            (levels b),
               totalBidVol := totalBidVol b + tsize t / 2,
               totalAskVol := totalAskVol b + tsize t / 2\<rparr>)"
  by (cases "side t")
    (simp_all add: accumulate_def accumulate_in_def roundToTick_def exact_def Let_def)

lemma ingest_exact:
  "ingest fp t =
     (case rotateBar fp t of
        (cbs, b) \<Rightarrow> fp\<lparr>completedBars := cbs, currentBar := Some (accumulate (tickSize fp) b t)\<rparr>)"
  by (simp add: ingest_def ingest_in_def rotateBar_def accumulate_def split: prod.splits)

lemma getCurrentBar_exact:
  "getCurrentBar fp =
     (case currentBar fp of
        None \<Rightarrow> (fp, None)
      | Some cb \<Rightarrow>
          (fp\<lparr>currentBar := Some (finalizeBar (imbalanceRatio fp) cb)\<rparr>,
           Some (serializeBar (finalizeBar (imbalanceRatio fp) cb))))"
  by (simp add: getCurrentBar_def getCurrentBar_in_def finalizeBar_def split: option.splits)

section \<open>The unit tests of the repository, on the model\<close>

text \<open>
  The cases of \<^verbatim>\<open>tests/calculations.test.js\<close> for the components modelled above, with
  the start of a bar as time 0: each evaluates on the model to what the test expects.
\<close>

lemma test_footprint_levels:
  "map_option levels (snd (getCurrentBar (foldl ingest (new_FootprintAggregator 60000 (1 / 2) 3)
      [\<lparr>ts = 100, price = 100, tsize = 10, side = Buy\<rparr>,
       \<lparr>ts = 200, price = 100, tsize = 5, side = Sell\<rparr>,
       \<lparr>ts = 300, price = 100, tsize = 3, side = Buy\<rparr>])))
     = Some [(Some 100, \<lparr>bidVol = 5, askVol = 13, delta = 8\<rparr>)]"
  by code_simp

lemma test_footprint_ohlc:
  "map_option (\<lambda>b. (b_open b, high b, low b, b_close b))
     (snd (getCurrentBar (foldl ingest (new_FootprintAggregator 60000 (1 / 2) 3)
      [\<lparr>ts = 10, price = 100, tsize = 1, side = Buy\<rparr>,
       \<lparr>ts = 20, price = 105, tsize = 1, side = Buy\<rparr>,
       \<lparr>ts = 30, price = 98, tsize = 1, side = Sell\<rparr>,
       \<lparr>ts = 40, price = 102, tsize = 1, side = Buy\<rparr>])))
     = Some (100, 105, 98, 102)"
  by code_simp

lemma test_footprint_rotation:
  "length (completedBars (foldl ingest (new_FootprintAggregator 60000 (1 / 2) 3)
      [\<lparr>ts = 100, price = 100, tsize = 5, side = Buy\<rparr>,
       \<lparr>ts = 60100, price = 101, tsize = 3, side = Sell\<rparr>])) = 1
   \<and> map_option b_open (currentBar (foldl ingest (new_FootprintAggregator 60000 (1 / 2) 3)
      [\<lparr>ts = 100, price = 100, tsize = 5, side = Buy\<rparr>,
       \<lparr>ts = 60100, price = 101, tsize = 3, side = Sell\<rparr>])) = Some 101"
  by code_simp

lemma test_imbalance:
  "map_option imbalances (snd (getCurrentBar (foldl ingest (new_FootprintAggregator 60000 (1 / 2) 3)
      (map (\<lambda>i. \<lparr>ts = of_nat i * 10, price = 201 / 2, tsize = 1, side = Sell\<rparr>) [0 ..< 30]
       @ map (\<lambda>i. \<lparr>ts = 300 + of_nat i * 10, price = 100, tsize = 1, side = Buy\<rparr>) [0 ..< 5]))))
     = Some [\<lparr>imb_price = Some (201 / 2), imb_ratio = 6, imb_side = BidImb\<rparr>]"
  by code_simp

lemma test_dom_snapshot:
  "bestBid (snapshot (update (new_DomBuilder 10) [(100, 50), (199 / 2, 30)] [(201 / 2, 40), (101, 20)]))
     = Some 100
   \<and> bestAsk (snapshot (update (new_DomBuilder 10) [(100, 50), (199 / 2, 30)] [(201 / 2, 40), (101, 20)]))
     = Some (201 / 2)
   \<and> spread (snapshot (update (new_DomBuilder 10) [(100, 50), (199 / 2, 30)] [(201 / 2, 40), (101, 20)]))
     = Some (1 / 2)
   \<and> map l_price (s_bids (snapshot (update (new_DomBuilder 10) [(100, 0), (99, 30)] []))) = [99]"
  by code_simp

lemma test_alert_throttle:
  "map length (snd (evaluations
      ((new_AlertEvaluator (default_config\<lparr>largePrintSize := 10\<rparr>))\<lparr>throttleMs := 60000\<rparr>)
      [(1000, example_context), (1001, example_context)])) = [1, 0]"
  by code_simp

lemma test_ring_last:
  "drainSince (foldl push (push (new_RingBuffer 100) (1::int)) [2, 3])
     (getHead (push (new_RingBuffer 100) (1::int))) = Some [2, 3]"
  by code_simp

lemma test_cvd:
  "sessionCvd (fst (cvd_ingest (fst (cvd_ingest (new_CvdCalculator 0)
      \<lparr>ts = 1, price = 100, tsize = 10, side = Buy\<rparr>))
      \<lparr>ts = 2, price = 100, tsize = 5, side = Buy\<rparr>)) = 15
   \<and> sessionCvd (fst (cvd_ingest (new_CvdCalculator 0)
      \<lparr>ts = 1, price = 100, tsize = 100, side = Unknown\<rparr>)) = 0"
  by code_simp

section \<open>Side inference: results\<close>

lemma inferSide_book_buy: "p \<ge> ask \<Longrightarrow> inferSide p prev (Some bid) (Some ask) = Buy"
  by (simp add: inferSide_def bookRule_def)

lemma inferSide_book_sell:
  "p < ask \<Longrightarrow> p \<le> bid \<Longrightarrow> inferSide p prev (Some bid) (Some ask) = Sell"
  by (simp add: inferSide_def bookRule_def)

lemma inferSide_tick_rule:
  "bid = None \<or> ask = None \<or> (\<exists>b a. bid = Some b \<and> ask = Some a \<and> b < p \<and> p < a) \<Longrightarrow>
   inferSide p prev bid ask =
     (case prev of None \<Rightarrow> Unknown
      | Some q \<Rightarrow> if p > q then Buy else if p < q then Sell else Unknown)"
  by (auto simp: inferSide_def bookRule_def tickRule_def split: option.splits)

lemma inferSide_examples:
  "inferSide (201 / 2) None (Some 100) (Some (201 / 2)) = Buy"
  "inferSide 100 None (Some 100) (Some (201 / 2)) = Sell"
  "inferSide 101 (Some 100) None None = Buy"
  "inferSide 99 (Some 100) None None = Sell"
  "inferSide 100 None None None = Unknown"
  by (simp_all add: inferSide_def bookRule_def tickRule_def)

text \<open>
  C1. Side inference is required to be deterministic and to answer \<open>unknown\<close> when
  nothing is known. The function \<open>inferSide\<close> does so, but the engine's own
  \<open>_inferSide\<close>, asked for the side of a trade at 100 with no quote and no earlier
  trade, answers from the random draw: \<open>buy\<close> for a draw of 1/4, \<open>sell\<close> for a draw of
  3/4, and never \<open>unknown\<close>.
\<close>

theorem C1_engine_inferSide_random:
  "inferSide 100 None None None = Unknown
   \<and> engine_inferSide 0 0 [] (1 / 4) 100 = Buy
   \<and> engine_inferSide 0 0 [] (3 / 4) 100 = Sell
   \<and> engine_inferSide lastAsk lastBid trades rnd p \<noteq> Unknown"
  by (simp add: inferSide_def bookRule_def tickRule_def engine_inferSide_def)

section \<open>Replay: results\<close>

text \<open>
  C2. Playing with nothing loaded must fail with an error the caller sees. The replay
  engine of \<open>AggregationEngine.js\<close> does (\<open>play\<close> yields \<open>NoTicksLoaded\<close> and stays
  stopped), the one of \<open>storage.js\<close> returns normally and leaves its state as it was,
  both for a fresh engine and after a load that found no tick.
\<close>

theorem C2_storage_play_silent:
  "snd (play new_replay sp) = Inl NoTicksLoaded
   \<and> running (fst (play new_replay sp)) = False
   \<and> snd (play (fst (load r [])) sp) = Inl NoTicksLoaded
   \<and> running (fst (play (fst (load r [])) sp)) = running r
   \<and> storage_play new_sreplay sp now = (new_sreplay, Inr ())
   \<and> snd (storage_load r' []) = 0
   \<and> storage_play (fst (storage_load r' [])) sp now = (fst (storage_load r' []), Inr ())
   \<and> s_playing (fst (storage_load r' [])) = False"
  by (simp add: play_def new_replay_def load_def storage_play_def new_sreplay_def
        storage_load_def Let_def)

section \<open>Footprint aggregator: the bar invariant\<close>

lemma list_all_update:
  "list_all (\<lambda>e. P (snd e)) al \<Longrightarrow> P v \<Longrightarrow> list_all (\<lambda>e. P (snd e)) (AList.update k v al)"
  by (induction al) (auto simp: AList.update.simps)

lemma list_all_map_of:
  "list_all (\<lambda>e. P (snd e)) al \<Longrightarrow> map_of al k = Some l \<Longrightarrow> P l"
  by (induction al) (auto split: if_splits)

lemma list_all_tl: "list_all P xs \<Longrightarrow> list_all P (tl xs)"
  by (cases xs) auto

lemma newBar_ok: "bar_ok (newBar d t p)"
  by (simp add: bar_ok_def newBar_exact Let_def)

lemma finalizeBar_ok: "bar_ok b \<Longrightarrow> bar_ok (finalizeBar r b)"
  by (simp add: bar_ok_def finalizeBar_exact)

lemma accumulate_ok:
  assumes "bar_ok b"
  shows "bar_ok (accumulate tk b t)"
proof -
  define rp where "rp = roundToTick tk (price t)"
  define lv where "lv = levelAt b rp"
  have lv: "level_ok lv"
    using assms list_all_map_of [of level_ok "levels b" rp]
    by (auto simp: lv_def levelAt_def bar_ok_def level_ok_def split: option.splits)
  have all: "list_all (\<lambda>e. level_ok (snd e)) (levels b)"
    using assms by (simp add: bar_ok_def)
  show ?thesis
  proof (cases "side t")
    case Buy
    have "level_ok (lv\<lparr>askVol := askVol lv + tsize t, delta := delta lv + tsize t\<rparr>)"
      using lv by (simp add: level_ok_def)
    from list_all_update [OF all this] assms Buy show ?thesis
      by (auto simp: accumulate_exact Let_def bar_ok_def rp_def lv_def levelAt_def)
  next
    case Sell
    have "level_ok (lv\<lparr>bidVol := bidVol lv + tsize t, delta := delta lv - tsize t\<rparr>)"
      using lv by (simp add: level_ok_def)
    from list_all_update [OF all this] assms Sell show ?thesis
      by (auto simp: accumulate_exact Let_def bar_ok_def rp_def lv_def levelAt_def)
  next
    case Unknown
    have "level_ok (lv\<lparr>bidVol := bidVol lv + tsize t / 2, askVol := askVol lv + tsize t / 2\<rparr>)"
      using lv by (simp add: level_ok_def)
    from list_all_update [OF all this] assms Unknown show ?thesis
      by (auto simp: accumulate_exact Let_def bar_ok_def rp_def lv_def levelAt_def)
  qed
qed

lemma rotateBar_ok:
  assumes "all_bars_ok fp" and "rotateBar fp t = (cbs, b)"
  shows "list_all bar_ok cbs \<and> bar_ok b"
  using assms
  by (auto simp: all_bars_ok_def rotateBar_exact Let_def newBar_ok finalizeBar_ok serializeBar_def
           list_all_tl split: option.splits if_splits)

lemma ingest_ok: "all_bars_ok fp \<Longrightarrow> all_bars_ok (ingest fp t)"
proof -
  assume a: "all_bars_ok fp"
  obtain cbs b where r: "rotateBar fp t = (cbs, b)" by (cases "rotateBar fp t")
  from rotateBar_ok [OF a r] show ?thesis
    by (simp add: ingest_exact r all_bars_ok_def accumulate_ok)
qed

lemma foldl_ingest_ok: "all_bars_ok fp \<Longrightarrow> all_bars_ok (foldl ingest fp ticks)"
  by (induction ticks arbitrary: fp) (simp_all add: ingest_ok)

text \<open>
  In exact arithmetic the invariant \<open>bar_ok\<close> holds of the current bar and of every
  completed bar, whatever the configuration and whatever trades are ingested: each
  branch of \<^verbatim>\<open>ingest\<close> moves \<open>delta\<close> and \<open>askVol - bidVol\<close> by the same amount.
\<close>

lemma exact_bar_invariant:
  "all_bars_ok (foldl ingest (new_FootprintAggregator d tk r) ticks)"
  by (rule foldl_ingest_ok) (simp add: all_bars_ok_def new_FootprintAggregator_def)

lemma exact_bar_invariant_example:
  "map (\<lambda>b. (totalDelta b, totalAskVol b, totalBidVol b, map snd (levels b)))
       (completedBars (foldl ingest (new_FootprintAggregator 60000 (1 / 2) 3)
      [\<lparr>ts = 100, price = 100, tsize = 10, side = Buy\<rparr>,
       \<lparr>ts = 200, price = 100, tsize = 5, side = Sell\<rparr>,
       \<lparr>ts = 300, price = 101, tsize = 3, side = Unknown\<rparr>,
       \<lparr>ts = 60100, price = 99, tsize = 4, side = Sell\<rparr>]))
     = [(5, 23 / 2, 13 / 2,
         [\<lparr>bidVol = 5, askVol = 10, delta = 5\<rparr>, \<lparr>bidVol = 3 / 2, askVol = 3 / 2, delta = 0\<rparr>])]"
  by code_simp

text \<open>
  The prices of a bar are compared and copied, never computed: \<open>high \<ge> max(open, close)
  \<ge> low\<close> holds of every bar under any rounding.
\<close>

lemma newBar_in_ohlc: "ohlc_ok (newBar_in rnd d t p)"
  by (simp add: ohlc_ok_def newBar_in_def Let_def)

lemma finalizeBar_in_ohlc: "ohlc_ok b \<Longrightarrow> ohlc_ok (finalizeBar_in rnd r b)"
  by (simp add: ohlc_ok_def finalizeBar_in_def)

lemma accumulate_in_ohlc: "ohlc_ok b \<Longrightarrow> ohlc_ok (accumulate_in rnd tk b t)"
  by (cases "side t") (auto simp: ohlc_ok_def accumulate_in_def Let_def)

lemma rotateBar_in_ohlc:
  assumes "all_bars_ohlc fp" and "rotateBar_in rnd fp t = (cbs, b)"
  shows "list_all ohlc_ok cbs \<and> ohlc_ok b"
  using assms
  by (auto simp: all_bars_ohlc_def rotateBar_in_def Let_def newBar_in_ohlc finalizeBar_in_ohlc
           serializeBar_def list_all_tl split: option.splits if_splits)

lemma ingest_in_ohlc: "all_bars_ohlc fp \<Longrightarrow> all_bars_ohlc (ingest_in rnd fp t)"
proof -
  assume a: "all_bars_ohlc fp"
  obtain cbs b where r: "rotateBar_in rnd fp t = (cbs, b)" by (cases "rotateBar_in rnd fp t")
  from rotateBar_in_ohlc [OF a r] show ?thesis
    by (simp add: ingest_in_def r all_bars_ohlc_def accumulate_in_ohlc)
qed

lemma ohlc_any_rounding:
  "all_bars_ohlc (foldl (ingest_in rnd) (new_FootprintAggregator d tk r) ticks)"
proof -
  have "all_bars_ohlc fp \<Longrightarrow> all_bars_ohlc (foldl (ingest_in rnd) fp ticks)" for fp
    by (induction ticks arbitrary: fp) (simp_all add: ingest_in_ohlc)
  then show ?thesis by (simp add: all_bars_ohlc_def new_FootprintAggregator_def)
qed

lemma drift_state:
  "foldl (ingest_in binary64) (new_FootprintAggregator 60000 (1 / 4) 3)
     [\<lparr>ts = 0, price = 100, tsize = binary64 (1 / 10), side = Unknown\<rparr>,
      \<lparr>ts = 1, price = 100, tsize = binary64 (1 / 10), side = Buy\<rparr>]
   = \<lparr>barDurationMs = 60000, tickSize = 1 / 4, imbalanceRatio = 3,
      currentBar = Some
        \<lparr>openTs = Some 0, closeTs = Some 60000,
         b_open = 100, high = 100, low = 100, b_close = 100,
         totalVolume = 3602879701896397 / 18014398509481984,
         totalDelta = 3602879701896397 / 36028797018963968,
         totalBidVol = 3602879701896397 / 72057594037927936,
         totalAskVol = 1351079888211149 / 9007199254740992,
         levels = [(Some 100,
                    \<lparr>bidVol = 3602879701896397 / 72057594037927936,
                     askVol = 1351079888211149 / 9007199254740992,
                     delta = 3602879701896397 / 36028797018963968\<rparr>)],
         imbalances = []\<rparr>,
      completedBars = [], maxBars = 100\<rparr>"
  by (simp add: ingest_in_def rotateBar_in_def barKey_in_def newBar_in_def accumulate_in_def
        roundToTick_in_def levelAt_def new_FootprintAggregator_def js_neq_def Let_def
        binary64_decimals binary64_fixed binary64_ties binary64_ms floor_rat_numeral)

lemma drift_state_known_sides:
  "foldl (ingest_in binary64) (new_FootprintAggregator 60000 (1 / 4) 3)
     [\<lparr>ts = 0, price = 100, tsize = binary64 (1 / 10), side = Buy\<rparr>,
      \<lparr>ts = 1, price = 100, tsize = binary64 (1 / 5), side = Sell\<rparr>,
      \<lparr>ts = 2, price = 100, tsize = binary64 (3 / 10), side = Buy\<rparr>]
   = \<lparr>barDurationMs = 60000, tickSize = 1 / 4, imbalanceRatio = 3,
      currentBar = Some
        \<lparr>openTs = Some 0, closeTs = Some 60000,
         b_open = 100, high = 100, low = 100, b_close = 100,
         totalVolume = 1351079888211149 / 2251799813685248,
         totalDelta = 7205759403792793 / 36028797018963968,
         totalBidVol = 3602879701896397 / 18014398509481984,
         totalAskVol = 3602879701896397 / 9007199254740992,
         levels = [(Some 100,
                    \<lparr>bidVol = 3602879701896397 / 18014398509481984,
                     askVol = 3602879701896397 / 9007199254740992,
                     delta = 7205759403792793 / 36028797018963968\<rparr>)],
         imbalances = []\<rparr>,
      completedBars = [], maxBars = 100\<rparr>"
  by (simp add: ingest_in_def rotateBar_in_def barKey_in_def newBar_in_def accumulate_in_def
        roundToTick_in_def levelAt_def new_FootprintAggregator_def js_neq_def Let_def
        binary64_decimals binary64_fixed binary64_ties binary64_ms floor_rat_numeral)

text \<open>
  C3. In binary64, as the code computes, the invariant on \<open>delta\<close> fails for
  fractional sizes. A new aggregator (bars of 60000 ms, tick size 0.25) ingests a
  trade of unknown side and size 0.1 at price 100, then a buy of size 0.1 at the same
  price; \<open>binary64 (1 / 10)\<close> is the double the literal \<^verbatim>\<open>0.1\<close> denotes. The unknown
  trade adds \<^verbatim>\<open>0.1 / 2\<close> to \<^verbatim>\<open>bidVol\<close> and to \<^verbatim>\<open>askVol\<close> and leaves \<^verbatim>\<open>delta\<close>;
  the buy makes \<^verbatim>\<open>askVol\<close> the rounded sum \<^verbatim>\<open>0.05 + 0.1 = 0.15000000000000002\<close> and
  \<^verbatim>\<open>delta\<close> the sum \<^verbatim>\<open>0 + 0.1 = 0.1\<close>. The one bar then has, at its one level and in
  its totals, \<^verbatim>\<open>bidVol = 0.05\<close>, \<^verbatim>\<open>askVol = 0.15000000000000002\<close> and
  \<^verbatim>\<open>delta = 0.1\<close>, while \<^verbatim>\<open>askVol - bidVol\<close> is \<^verbatim>\<open>0.10000000000000002\<close>, exactly
  and as a double: \<open>delta = askVol - bidVol\<close> is false at the level and for the bar.
\<close>

theorem C3_delta_drift:
  "(let fp = foldl (ingest_in binary64) (new_FootprintAggregator 60000 (1 / 4) 3)
               [\<lparr>ts = 0, price = 100, tsize = binary64 (1 / 10), side = Unknown\<rparr>,
                \<lparr>ts = 1, price = 100, tsize = binary64 (1 / 10), side = Buy\<rparr>]
    in completedBars fp = []
       \<and> map_option (\<lambda>b. (levels b, totalBidVol b, totalAskVol b, totalDelta b)) (currentBar fp)
           = Some ([(Some 100,
                     \<lparr>bidVol = 3602879701896397 / 72057594037927936,
                      askVol = 1351079888211149 / 9007199254740992,
                      delta = 3602879701896397 / 36028797018963968\<rparr>)],
                   3602879701896397 / 72057594037927936,
                   1351079888211149 / 9007199254740992,
                   3602879701896397 / 36028797018963968)
       \<and> \<not> all_bars_ok fp)
   \<and> binary64 (1351079888211149 / 9007199254740992 - 3602879701896397 / 72057594037927936)
       = 7205759403792795 / 72057594037927936
   \<and> (1351079888211149 / 9007199254740992 - 3602879701896397 / 72057594037927936 :: rat)
       = 7205759403792795 / 72057594037927936
   \<and> (7205759403792795 / 72057594037927936 :: rat) \<noteq> 3602879701896397 / 36028797018963968"
  unfolding Let_def drift_state
  by (simp add: all_bars_ok_def bar_ok_def level_ok_def binary64_fixed)

text \<open>
  The same with known sides only: a buy of 0.1, a sell of 0.2 and a buy of 0.3 at one
  price leave \<^verbatim>\<open>delta = 0.19999999999999998\<close> beside \<^verbatim>\<open>askVol = 0.4\<close> and
  \<^verbatim>\<open>bidVol = 0.2\<close>, whose difference is the double \<^verbatim>\<open>0.2\<close>.
\<close>

lemma delta_drift_known_sides:
  "map_option (\<lambda>b. (levels b, totalBidVol b, totalAskVol b, totalDelta b))
     (currentBar (foldl (ingest_in binary64) (new_FootprintAggregator 60000 (1 / 4) 3)
        [\<lparr>ts = 0, price = 100, tsize = binary64 (1 / 10), side = Buy\<rparr>,
         \<lparr>ts = 1, price = 100, tsize = binary64 (1 / 5), side = Sell\<rparr>,
         \<lparr>ts = 2, price = 100, tsize = binary64 (3 / 10), side = Buy\<rparr>]))
     = Some ([(Some 100,
               \<lparr>bidVol = 3602879701896397 / 18014398509481984,
                askVol = 3602879701896397 / 9007199254740992,
                delta = 7205759403792793 / 36028797018963968\<rparr>)],
             3602879701896397 / 18014398509481984,
             3602879701896397 / 9007199254740992,
             7205759403792793 / 36028797018963968)
   \<and> binary64 (3602879701896397 / 9007199254740992 - 3602879701896397 / 18014398509481984)
       = 3602879701896397 / 18014398509481984
   \<and> (3602879701896397 / 18014398509481984 :: rat) \<noteq> 7205759403792793 / 36028797018963968"
  unfolding drift_state_known_sides
  by (simp add: binary64_fixed)

section \<open>Ring buffer: what a drain returns\<close>

lemma mod_add_neq:
  assumes "j < m" "m < (C::nat)"
  shows "(h + j) mod C \<noteq> (h + m) mod C"
proof
  assume "(h + j) mod C = (h + m) mod C"
  then have "(h + m) mod C = (h + j) mod C" by simp
  then have "C dvd (h + m) - (h + j)"
    using assms by (subst (asm) mod_eq_dvd_iff_nat) simp_all
  then have "C dvd m - j" by simp
  moreover have "0 < m - j" "m - j < C" using assms by simp_all
  ultimately show False using nat_dvd_not_less by blast
qed

lemma map_filter_map_fun:
  "List.map_filter f (map g xs) = List.map_filter (\<lambda>x. f (g x)) xs"
  by (induction xs) (auto simp: List.map_filter_simps split: option.splits)

lemma map_filter_upt_Suc:
  "List.map_filter f [0..<Suc m] =
     (case f 0 of None \<Rightarrow> [] | Some x \<Rightarrow> [x]) @ List.map_filter (\<lambda>j. f (Suc j)) [0..<m]"
proof -
  have "[0..<Suc m] = 0 # map Suc [0..<m]"
    by (simp add: upt_conv_Cons map_Suc_upt del: upt_Suc)
  then show ?thesis
    by (simp add: List.map_filter_simps map_filter_map_fun split: option.splits del: upt_Suc)
qed

lemma map_filter_cong_set:
  "(\<And>x. x \<in> set xs \<Longrightarrow> f x = g x) \<Longrightarrow> List.map_filter f xs = List.map_filter g xs"
  by (induction xs) (auto simp: List.map_filter_simps split: option.splits)

lemma map_filter_snoc:
  "List.map_filter f (xs @ [y]) = List.map_filter f xs @ (case f y of None \<Rightarrow> [] | Some v \<Rightarrow> [v])"
  by (simp add: List.map_filter_def split: option.splits)

text \<open>
  The loop from a slot \<open>pos\<close> that lies \<open>m\<close> steps before the head ends, having read
  the \<open>m\<close> slots from \<open>pos\<close> on.
\<close>

lemma drainLoop_run:
  assumes "capacity rb = C" "length (buffer rb) = C" "0 < C"
  shows "m < C \<Longrightarrow> pos < C \<Longrightarrow> head rb = Some ((pos + m) mod C) \<Longrightarrow>
    drainLoop rb (Some pos) items
      = Some (items @ List.map_filter (\<lambda>j. buffer rb ! ((pos + j) mod C)) [0..<m])"
proof (induction m arbitrary: pos items)
  case 0
  then show ?case by (subst drainLoop.simps) (simp add: List.map_filter_simps)
next
  case (Suc m)
  have ne: "Some pos \<noteq> head rb"
    using mod_add_neq [of 0 "Suc m" C pos] Suc.prems by simp
  have hd: "head rb = Some ((Suc pos mod C + m) mod C)"
    using Suc.prems by (simp add: mod_add_left_eq)
  have lt: "Suc pos mod C < C" using assms by simp
  have ih: "drainLoop rb (Some (Suc pos mod C)) its
      = Some (its @ List.map_filter (\<lambda>j. buffer rb ! ((pos + Suc j) mod C)) [0..<m])" for its
    using Suc.IH [OF _ lt hd, of its] Suc.prems by (simp add: mod_add_left_eq)
  have step: "drainLoop rb (Some pos) items =
      drainLoop rb (Some (Suc pos mod C))
        (case buffer rb ! pos of None \<Rightarrow> items | Some x \<Rightarrow> items @ [x])"
    using ne assms Suc.prems
    by (subst drainLoop.simps) (simp add: advance_def slot_def)
  show ?case
    unfolding step ih map_filter_upt_Suc using Suc.prems
    by (simp split: option.splits)
qed

lemma push_wf:
  assumes "ring_wf rb" "head rb = Some h"
  shows "ring_wf (push rb x) \<and> head (push rb x) = Some ((h + 1) mod capacity rb)
     \<and> buffer (push rb x) = (buffer rb)[h := Some x] \<and> capacity (push rb x) = capacity rb"
  using assms by (simp add: ring_wf_def push_def advance_def store_def)

lemma new_RingBuffer_wf: "0 < c \<Longrightarrow> ring_wf (new_RingBuffer c)"
  by (simp add: ring_wf_def new_RingBuffer_def)

lemma clear_wf: "ring_wf rb \<Longrightarrow> ring_wf (clear rb)"
  by (simp add: ring_wf_def clear_def)

text \<open>
  After \<open>k\<close> pushes from head \<open>h\<close> the head stands \<open>k mod C\<close> slots after \<open>h\<close>, and
  those slots hold the last \<open>k mod C\<close> items pushed.
\<close>

lemma pushes_state:
  assumes "ring_wf rb" "head rb = Some h" "capacity rb = C"
  shows "ring_wf (foldl push rb xs) \<and> capacity (foldl push rb xs) = C
     \<and> head (foldl push rb xs) = Some ((h + length xs) mod C)
     \<and> List.map_filter (\<lambda>j. buffer (foldl push rb xs) ! ((h + j) mod C)) [0..<length xs mod C]
         = drop (length xs - length xs mod C) xs"
proof (induction xs rule: rev_induct)
  case Nil
  then show ?case using assms by (simp add: ring_wf_def List.map_filter_simps)
next
  case (snoc x xs)
  define rb' where "rb' = foldl push rb xs"
  define k where "k = length xs"
  define m where "m = k mod C"
  have C: "0 < C" using assms by (auto simp: ring_wf_def)
  have wf': "ring_wf rb'" and cap': "capacity rb' = C"
    and hd': "head rb' = Some ((h + k) mod C)"
    and cont: "List.map_filter (\<lambda>j. buffer rb' ! ((h + j) mod C)) [0..<m] = drop (k - m) xs"
    using snoc.IH by (simp_all add: rb'_def k_def m_def)
  have len': "length (buffer rb') = C" using wf' cap' by (simp add: ring_wf_def)
  note p = push_wf [OF wf' hd', of x, unfolded cap']
  have buf: "buffer (push rb' x) = (buffer rb')[(h + k) mod C := Some x]" using p by simp
  have hd'': "head (push rb' x) = Some ((h + Suc k) mod C)"
    using p by (simp add: mod_Suc_eq)
  have mC: "m < C" using C by (simp add: m_def)
  have hk: "(h + k) mod C = (h + m) mod C" by (simp add: m_def mod_add_right_eq)
  have content: "List.map_filter (\<lambda>j. buffer (push rb' x) ! ((h + j) mod C)) [0..<Suc k mod C]
       = drop (Suc k - Suc k mod C) (xs @ [x])"
  proof (cases "Suc m = C")
    case True
    then have "Suc k mod C = 0" by (simp add: m_def mod_Suc)
    then show ?thesis by (simp add: List.map_filter_simps k_def)
  next
    case False
    then have sm: "Suc k mod C = Suc m" by (simp add: m_def mod_Suc)
    have old: "List.map_filter (\<lambda>j. buffer (push rb' x) ! ((h + j) mod C)) [0..<m]
         = List.map_filter (\<lambda>j. buffer rb' ! ((h + j) mod C)) [0..<m]"
    proof (rule map_filter_cong_set)
      fix j assume "j \<in> set [0..<m]"
      then have "j < m" by simp
      from mod_add_neq [OF this mC, of h] hk
      show "buffer (push rb' x) ! ((h + j) mod C) = buffer rb' ! ((h + j) mod C)"
        by (simp add: buf)
    qed
    have new: "buffer (push rb' x) ! ((h + m) mod C) = Some x"
      using C len' by (simp add: buf hk)
    have "k - m \<le> length xs" by (simp add: k_def)
    then show ?thesis
      by (simp add: sm map_filter_snoc old new cont k_def [symmetric] Suc_diff_le)
  qed
  show ?case
    using p content hd'' by (simp add: rb'_def [symmetric] k_def [symmetric])
qed

lemma drainSince_pushes:
  assumes "ring_wf rb"
  shows "drainSince (foldl push rb xs) (getHead rb)
           = Some (drop (length xs - length xs mod capacity rb) xs)"
proof -
  obtain h where h: "head rb = Some h" "h < capacity rb"
    using assms by (auto simp: ring_wf_def split: option.splits)
  define C where "C = capacity rb"
  note st = pushes_state [OF assms h(1) C_def [symmetric], of xs]
  have C: "0 < C" using assms by (simp add: ring_wf_def C_def)
  have len: "length (buffer (foldl push rb xs)) = C" using st by (simp add: ring_wf_def)
  have hd: "head (foldl push rb xs) = Some ((h + length xs mod C) mod C)"
    using st by (simp add: mod_add_right_eq)
  have run: "drainLoop (foldl push rb xs) (Some h) []
      = Some ([] @ List.map_filter (\<lambda>j. buffer (foldl push rb xs) ! ((h + j) mod C)) [0..<length xs mod C])"
    by (rule drainLoop_run [OF _ len C _ _ hd]) (use st h C in \<open>simp_all add: C_def\<close>)
  have "drainLoop (foldl push rb xs) (Some h) [] = Some (drop (length xs - length xs mod C) xs)"
    using run st by simp
  moreover have "Some h = head (foldl push rb xs) \<Longrightarrow> drop (length xs - length xs mod C) xs = []"
  proof -
    assume "Some h = head (foldl push rb xs)"
    then have "(h + 0) mod C = (h + length xs mod C) mod C" using hd h by (simp add: C_def)
    then have "length xs mod C = 0"
      using mod_add_neq [of 0 "length xs mod C" C h] C by (cases "length xs mod C = 0") auto
    then show ?thesis by simp
  qed
  ultimately show ?thesis
    by (auto simp: drainSince_def getHead_def h C_def)
qed

text \<open>
  C8, as claimed, fails once the appends reach the capacity. A buffer of capacity 3
  holds the item 10; the cursor is captured; the items 20, 30, 40 are appended. The
  head is back on the cursor and the drain returns nothing, not the three items.
\<close>

theorem C8_drain_full_wrap_counterexample:
  "drainSince (foldl push (push (new_RingBuffer 3) (10::int)) [20, 30, 40])
       (getHead (push (new_RingBuffer 3) (10::int))) = Some []
   \<and> drainSince (foldl push (push (new_RingBuffer 3) (10::int)) [20, 30, 40])
       (getHead (push (new_RingBuffer 3) (10::int))) \<noteq> Some [20, 30, 40]"
  by (simp add: drainSince_def getHead_def push_def new_RingBuffer_def advance_def store_def)

text \<open>
  C8, amended. For a buffer of positive capacity \<open>C\<close> in any state the constructor,
  \<open>push\<close> and \<open>clear\<close> produce, a cursor captured from it and any items \<open>xs\<close> appended
  afterwards, the drain ends and returns the last \<open>length xs mod C\<close> of the appended
  items in append order; when fewer than \<open>C\<close> items were appended these are exactly the
  appended items.
\<close>

theorem C8_drainSince:
  assumes "ring_wf rb"
  shows "drainSince (foldl push rb xs) (getHead rb)
           = Some (drop (length xs - length xs mod capacity rb) xs)
         \<and> (length xs < capacity rb \<longrightarrow>
              drainSince (foldl push rb xs) (getHead rb) = Some xs)"
  using drainSince_pushes [OF assms, of xs] by simp

theorem C8_drainSince_witness:
  "ring_wf (push (new_RingBuffer 3) (10::int))
   \<and> drainSince (foldl push (push (new_RingBuffer 3) (10::int)) [20, 30])
       (getHead (push (new_RingBuffer 3) (10::int))) = Some [20, 30]
   \<and> drainSince (foldl push (push (new_RingBuffer 3) (10::int)) [20, 30, 40, 50])
       (getHead (push (new_RingBuffer 3) (10::int))) = Some [50]"
proof -
  have wf: "ring_wf (push (new_RingBuffer 3) (10::int))"
    by (simp add: ring_wf_def push_def new_RingBuffer_def advance_def store_def)
  have cap: "capacity (push (new_RingBuffer 3) (10::int)) = 3"
    by (simp add: push_def new_RingBuffer_def)
  have two: "length [20, 30::int] - length [20, 30::int] mod 3 = 0" by simp
  have four: "length [20, 30, 40, 50::int] - length [20, 30, 40, 50::int] mod 3 = 3" by simp
  have a: "drainSince (foldl push (push (new_RingBuffer 3) (10::int)) [20, 30])
       (getHead (push (new_RingBuffer 3) (10::int))) = Some [20, 30]"
    using C8_drainSince [OF wf, of "[20, 30]"] unfolding cap two by simp
  have b: "drainSince (foldl push (push (new_RingBuffer 3) (10::int)) [20, 30, 40, 50])
       (getHead (push (new_RingBuffer 3) (10::int))) = Some [50]"
    using C8_drainSince [OF wf, of "[20, 30, 40, 50]"] unfolding cap four by simp
  from wf a b show ?thesis by simp
qed

section \<open>Footprint aggregator: the unknown side, and the CVD\<close>

text \<open>
  C4. Let a tick \<open>t\<close> of unknown side be ingested. The bar \<open>b0\<close> it goes to is the
  current bar when the tick falls in its bucket and a new bar otherwise. After the
  ingest the level at the rounded price has half the size more bid volume and half the
  size more ask volume than in \<open>b0\<close> (a missing level counting as zeros) and the same
  delta; the bar's total bid and ask volume grow by half the size each, its total delta
  stays, its total volume grows by the size, and no other level changes. The CVD delta
  of the tick is 0: the session value stays and the point returned carries it. For any
  tick the CVD delta is \<open>+size\<close> for buy, \<open>-size\<close> for sell and \<open>0\<close> for unknown.
\<close>

theorem C4_unknown_split:
  assumes u: "side t = Unknown"
  shows "(let b0 = snd (rotateBar fp t); rp = roundToTick (tickSize fp) (price t) in
     b0 = (case currentBar fp of
             None \<Rightarrow> newBar (barDurationMs fp) (ts t) (price t)
           | Some cb \<Rightarrow> if js_neq (openTs cb) (barKey (barDurationMs fp) (ts t))
                        then newBar (barDurationMs fp) (ts t) (price t) else cb)
     \<and> (\<exists>b. currentBar (ingest fp t) = Some b
      \<and> map_of (levels b) rp = Some (levelAt b rp)
      \<and> bidVol (levelAt b rp) = bidVol (levelAt b0 rp) + tsize t / 2
      \<and> askVol (levelAt b rp) = askVol (levelAt b0 rp) + tsize t / 2
      \<and> delta (levelAt b rp) = delta (levelAt b0 rp)
      \<and> totalBidVol b = totalBidVol b0 + tsize t / 2
      \<and> totalAskVol b = totalAskVol b0 + tsize t / 2
      \<and> totalDelta b = totalDelta b0
      \<and> totalVolume b = totalVolume b0 + tsize t
      \<and> (\<forall>k. k \<noteq> rp \<longrightarrow> map_of (levels b) k = map_of (levels b0) k)))
      \<and> tick_delta t = 0
      \<and> sessionCvd (fst (cvd_ingest c t)) = sessionCvd c
      \<and> p_cvd (snd (cvd_ingest c t)) = sessionCvd c
      \<and> tick_delta t' = (case side t' of Buy \<Rightarrow> tsize t' | Sell \<Rightarrow> - tsize t' | Unknown \<Rightarrow> 0)
      \<and> sessionCvd (fst (cvd_ingest c t')) = sessionCvd c + tick_delta t'
      \<and> p_cvd (snd (cvd_ingest c t')) = sessionCvd c + tick_delta t'"
proof -
  obtain cbs b0 where r: "rotateBar fp t = (cbs, b0)" by (cases "rotateBar fp t")
  have b0: "b0 = (case currentBar fp of
             None \<Rightarrow> newBar (barDurationMs fp) (ts t) (price t)
           | Some cb \<Rightarrow> if js_neq (openTs cb) (barKey (barDurationMs fp) (ts t))
                        then newBar (barDurationMs fp) (ts t) (price t) else cb)"
    using r by (auto simp: rotateBar_exact Let_def split: option.splits if_splits)
  show ?thesis
    using u b0 [symmetric]
    by (simp add: r ingest_exact accumulate_exact Let_def update_conv' cvd_ingest_def tick_delta_def
          levelAt_def)
qed

theorem C4_unknown_split_witness:
  "side \<lparr>ts = 100, price = 100, tsize = 10, side = Unknown\<rparr> = Unknown
   \<and> (\<exists>b. currentBar (ingest (new_FootprintAggregator 60000 (1 / 2) 3)
                \<lparr>ts = 100, price = 100, tsize = 10, side = Unknown\<rparr>) = Some b
        \<and> bidVol (levelAt b (Some 100)) = 5 \<and> askVol (levelAt b (Some 100)) = 5
        \<and> delta (levelAt b (Some 100)) = 0
        \<and> totalBidVol b = 5 \<and> totalAskVol b = 5 \<and> totalDelta b = 0 \<and> totalVolume b = 10)
   \<and> sessionCvd (fst (cvd_ingest (new_CvdCalculator 0)
        \<lparr>ts = 100, price = 100, tsize = 10, side = Unknown\<rparr>)) = 0"
proof -
  let ?fp = "new_FootprintAggregator 60000 (1 / 2) 3"
  let ?t = "\<lparr>ts = 100, price = 100, tsize = 10, side = Unknown\<rparr>"
  have u: "side ?t = Unknown" by simp
  have rp: "roundToTick (tickSize ?fp) (price ?t) = Some 100" by code_simp
  have b0: "levelAt (snd (rotateBar ?fp ?t)) (Some 100) = \<lparr>bidVol = 0, askVol = 0, delta = 0\<rparr>"
      "totalBidVol (snd (rotateBar ?fp ?t)) = 0" "totalAskVol (snd (rotateBar ?fp ?t)) = 0"
      "totalDelta (snd (rotateBar ?fp ?t)) = 0" "totalVolume (snd (rotateBar ?fp ?t)) = 0"
    by code_simp+
  have s0: "sessionCvd (new_CvdCalculator 0) = 0" by (simp add: new_CvdCalculator_def)
  have sz: "tsize ?t = 10" by simp
  note inst = C4_unknown_split [OF u, of ?fp "new_CvdCalculator 0" ?t, unfolded Let_def rp b0 s0 sz]
  from inst u show ?thesis by auto
qed

section \<open>Footprint aggregator: imbalances\<close>

lemma imbalance_loop_set:
  "e \<in> set (imbalance_loop r lv ps) \<longleftrightarrow>
     (\<exists>i lo up. Suc i < length ps \<and> lv (ps ! i) = Some lo \<and> lv (ps ! Suc i) = Some up
        \<and> e \<in> set (checkPair r (ps ! i) lo (ps ! Suc i) up))"
proof (induction ps rule: induct_list012)
  case (3 p q ps)
  let ?A = "\<exists>lo up. lv p = Some lo \<and> lv q = Some up \<and> e \<in> set (checkPair r p lo q up)"
  let ?B = "\<exists>i lo up. Suc i < length (q # ps) \<and> lv ((q # ps) ! i) = Some lo
          \<and> lv ((q # ps) ! Suc i) = Some up
          \<and> e \<in> set (checkPair r ((q # ps) ! i) lo ((q # ps) ! Suc i) up)"
  let ?L = "\<exists>i lo up. Suc i < length (p # q # ps) \<and> lv ((p # q # ps) ! i) = Some lo
          \<and> lv ((p # q # ps) ! Suc i) = Some up
          \<and> e \<in> set (checkPair r ((p # q # ps) ! i) lo ((p # q # ps) ! Suc i) up)"
  have split: "?L \<longleftrightarrow> ?A \<or> ?B"
  proof
    assume ?L
    then obtain i lo up where i: "Suc i < length (p # q # ps)" "lv ((p # q # ps) ! i) = Some lo"
      "lv ((p # q # ps) ! Suc i) = Some up"
      "e \<in> set (checkPair r ((p # q # ps) ! i) lo ((p # q # ps) ! Suc i) up)" by blast
    show "?A \<or> ?B"
    proof (cases i)
      case 0
      with i show ?thesis by auto
    next
      case (Suc j)
      with i have "Suc j < length (q # ps) \<and> lv ((q # ps) ! j) = Some lo
          \<and> lv ((q # ps) ! Suc j) = Some up
          \<and> e \<in> set (checkPair r ((q # ps) ! j) lo ((q # ps) ! Suc j) up)" by simp
      then show ?thesis by blast
    qed
  next
    assume "?A \<or> ?B"
    then show ?L
    proof
      assume ?A
      then obtain lo up where "lv p = Some lo" "lv q = Some up" "e \<in> set (checkPair r p lo q up)"
        by blast
      then have "Suc 0 < length (p # q # ps) \<and> lv ((p # q # ps) ! 0) = Some lo
          \<and> lv ((p # q # ps) ! Suc 0) = Some up
          \<and> e \<in> set (checkPair r ((p # q # ps) ! 0) lo ((p # q # ps) ! Suc 0) up)" by simp
      then show ?L by blast
    next
      assume ?B
      then obtain j lo up where "Suc j < length (q # ps)" "lv ((q # ps) ! j) = Some lo"
          "lv ((q # ps) ! Suc j) = Some up"
          "e \<in> set (checkPair r ((q # ps) ! j) lo ((q # ps) ! Suc j) up)" by blast
      then have "Suc (Suc j) < length (p # q # ps) \<and> lv ((p # q # ps) ! Suc j) = Some lo
          \<and> lv ((p # q # ps) ! Suc (Suc j)) = Some up
          \<and> e \<in> set (checkPair r ((p # q # ps) ! Suc j) lo ((p # q # ps) ! Suc (Suc j)) up)" by simp
      then show ?L by blast
    qed
  qed
  have "e \<in> set (imbalance_loop r lv (p # q # ps)) \<longleftrightarrow>
      ?A \<or> e \<in> set (imbalance_loop r lv (q # ps))"
    by (cases "lv p"; cases "lv q") (auto simp: imbalance_loop_exact)
  then show ?case unfolding split "3.IH" (2) by simp
qed (simp_all add: imbalance_loop_exact)

lemma checkPair_ask:
  "e \<in> set (checkPair r p lo q up) \<and> imb_side e = AskImb \<longleftrightarrow>
     bidVol up > 0 \<and> askVol lo / bidVol up \<ge> r
     \<and> e = \<lparr>imb_price = p, imb_ratio = askVol lo / bidVol up, imb_side = AskImb\<rparr>"
  by (auto simp: checkPair_exact)

lemma checkPair_bid:
  "e \<in> set (checkPair r p lo q up) \<and> imb_side e = BidImb \<longleftrightarrow>
     askVol lo > 0 \<and> bidVol up / askVol lo \<ge> r
     \<and> e = \<lparr>imb_price = q, imb_ratio = bidVol up / askVol lo, imb_side = BidImb\<rparr>"
  by (auto simp: checkPair_exact)

lemma finalizeBar_pair:
  assumes dist: "distinct (map fst (levels b))"
    and ps: "ps = sort (map fst (levels b))"
    and i: "Suc i < length ps"
    and lo: "map_of (levels b) (ps ! i) = Some lower"
    and up: "map_of (levels b) (ps ! Suc i) = Some upper"
  shows "ps ! i < ps ! Suc i
    \<and> {e \<in> set (imbalances (finalizeBar r b)). imb_side e = AskImb \<and> imb_price e = ps ! i}
        = (if bidVol upper > 0 \<and> askVol lower / bidVol upper \<ge> r
           then {\<lparr>imb_price = ps ! i, imb_ratio = askVol lower / bidVol upper, imb_side = AskImb\<rparr>}
           else {})
    \<and> {e \<in> set (imbalances (finalizeBar r b)). imb_side e = BidImb \<and> imb_price e = ps ! Suc i}
        = (if askVol lower > 0 \<and> bidVol upper / askVol lower \<ge> r
           then {\<lparr>imb_price = ps ! Suc i, imb_ratio = bidVol upper / askVol lower, imb_side = BidImb\<rparr>}
           else {})"
proof -
  have dps: "distinct ps" and sps: "sorted ps" using dist ps by simp_all
  have lt: "ps ! i < ps ! Suc i"
  proof -
    have "ps ! i \<le> ps ! Suc i" using sps i by (simp add: sorted_nth_mono)
    moreover have "ps ! i \<noteq> ps ! Suc i" using dps i by (simp add: nth_eq_iff_index_eq)
    ultimately show ?thesis by simp
  qed
  have imb: "imbalances (finalizeBar r b) = imbalance_loop r (map_of (levels b)) ps"
    by (simp add: finalizeBar_exact ps)
  have ask: "e \<in> set (imbalance_loop r (map_of (levels b)) ps) \<and> imb_side e = AskImb
        \<and> imb_price e = ps ! i \<longleftrightarrow>
      bidVol upper > 0 \<and> askVol lower / bidVol upper \<ge> r
      \<and> e = \<lparr>imb_price = ps ! i, imb_ratio = askVol lower / bidVol upper, imb_side = AskImb\<rparr>" for e
  proof
    assume a: "e \<in> set (imbalance_loop r (map_of (levels b)) ps) \<and> imb_side e = AskImb
        \<and> imb_price e = ps ! i"
    then obtain j l u where j: "Suc j < length ps" "map_of (levels b) (ps ! j) = Some l"
      "map_of (levels b) (ps ! Suc j) = Some u" "e \<in> set (checkPair r (ps ! j) l (ps ! Suc j) u)"
      unfolding imbalance_loop_set by blast
    with a have c: "bidVol u > 0 \<and> askVol l / bidVol u \<ge> r
       \<and> e = \<lparr>imb_price = ps ! j, imb_ratio = askVol l / bidVol u, imb_side = AskImb\<rparr>"
      using checkPair_ask [of e r "ps ! j" l "ps ! Suc j" u] by blast
    with a have "ps ! j = ps ! i" by simp
    then have "j = i" using dps j(1) i by (simp add: nth_eq_iff_index_eq)
    with j lo up c show "bidVol upper > 0 \<and> askVol lower / bidVol upper \<ge> r
      \<and> e = \<lparr>imb_price = ps ! i, imb_ratio = askVol lower / bidVol upper, imb_side = AskImb\<rparr>"
      by simp
  next
    assume c: "bidVol upper > 0 \<and> askVol lower / bidVol upper \<ge> r
      \<and> e = \<lparr>imb_price = ps ! i, imb_ratio = askVol lower / bidVol upper, imb_side = AskImb\<rparr>"
    then have "e \<in> set (checkPair r (ps ! i) lower (ps ! Suc i) upper)"
      using checkPair_ask [of e r "ps ! i" lower "ps ! Suc i" upper] by simp
    with i lo up have "e \<in> set (imbalance_loop r (map_of (levels b)) ps)"
      unfolding imbalance_loop_set by blast
    with c show "e \<in> set (imbalance_loop r (map_of (levels b)) ps) \<and> imb_side e = AskImb
        \<and> imb_price e = ps ! i" by simp
  qed
  have bid: "e \<in> set (imbalance_loop r (map_of (levels b)) ps) \<and> imb_side e = BidImb
        \<and> imb_price e = ps ! Suc i \<longleftrightarrow>
      askVol lower > 0 \<and> bidVol upper / askVol lower \<ge> r
      \<and> e = \<lparr>imb_price = ps ! Suc i, imb_ratio = bidVol upper / askVol lower, imb_side = BidImb\<rparr>" for e
  proof
    assume a: "e \<in> set (imbalance_loop r (map_of (levels b)) ps) \<and> imb_side e = BidImb
        \<and> imb_price e = ps ! Suc i"
    then obtain j l u where j: "Suc j < length ps" "map_of (levels b) (ps ! j) = Some l"
      "map_of (levels b) (ps ! Suc j) = Some u" "e \<in> set (checkPair r (ps ! j) l (ps ! Suc j) u)"
      unfolding imbalance_loop_set by blast
    with a have c: "askVol l > 0 \<and> bidVol u / askVol l \<ge> r
       \<and> e = \<lparr>imb_price = ps ! Suc j, imb_ratio = bidVol u / askVol l, imb_side = BidImb\<rparr>"
      using checkPair_bid [of e r "ps ! j" l "ps ! Suc j" u] by blast
    with a have "ps ! Suc j = ps ! Suc i" by simp
    then have "j = i" using dps j(1) i by (simp add: nth_eq_iff_index_eq)
    with j lo up c show "askVol lower > 0 \<and> bidVol upper / askVol lower \<ge> r
      \<and> e = \<lparr>imb_price = ps ! Suc i, imb_ratio = bidVol upper / askVol lower, imb_side = BidImb\<rparr>"
      by simp
  next
    assume c: "askVol lower > 0 \<and> bidVol upper / askVol lower \<ge> r
      \<and> e = \<lparr>imb_price = ps ! Suc i, imb_ratio = bidVol upper / askVol lower, imb_side = BidImb\<rparr>"
    then have "e \<in> set (checkPair r (ps ! i) lower (ps ! Suc i) upper)"
      using checkPair_bid [of e r "ps ! i" lower "ps ! Suc i" upper] by simp
    with i lo up have "e \<in> set (imbalance_loop r (map_of (levels b)) ps)"
      unfolding imbalance_loop_set by blast
    with c show "e \<in> set (imbalance_loop r (map_of (levels b)) ps) \<and> imb_side e = BidImb
        \<and> imb_price e = ps ! Suc i" by simp
  qed
  show ?thesis
    unfolding imb using lt ask bid by auto
qed

lemma ingest_keys_ok: "keys_ok fp \<Longrightarrow> keys_ok (ingest fp t)"
  by (auto simp: keys_ok_def ingest_exact rotateBar_exact accumulate_exact Let_def newBar_exact
        finalizeBar_exact serializeBar_def distinct_update list_all_tl
        split: option.splits if_splits side.splits)

lemma foldl_ingest_keys_ok:
  "keys_ok (foldl ingest (new_FootprintAggregator d tk r) ticks)"
proof -
  have "keys_ok fp \<Longrightarrow> keys_ok (foldl ingest fp ticks)" for fp
    by (induction ticks arbitrary: fp) (simp_all add: ingest_keys_ok)
  then show ?thesis by (simp add: keys_ok_def new_FootprintAggregator_def)
qed

text \<open>
  C5. Let \<open>b\<close> be a bar whose level map has each price once (as the map of every bar
  of the aggregator has) and whose prices are numbers, and take the \<open>i\<close>-th and the
  next of its prices in ascending order, with the levels \<open>lower\<close> and \<open>upper\<close> there. Among the imbalances of the
  finalized bar, an ask imbalance stands at the lower price exactly when
  \<open>upper.bidVol > 0\<close> and \<open>lower.askVol / upper.bidVol \<ge> imbalanceRatio\<close>, and it is then
  the one entry with that ratio; a bid imbalance stands at the upper price exactly when
  \<open>lower.askVol > 0\<close> and \<open>upper.bidVol / lower.askVol \<ge> imbalanceRatio\<close>. With a zero
  denominator nothing is flagged, whatever the numerator.
\<close>

theorem C5_imbalance_flags:
  assumes "distinct (map fst (levels b))" and "Suc i < length (levels b)"
    and "list_all (\<lambda>e. fst e \<noteq> None) (levels b)"
  shows "(let ps = sort (map fst (levels b));
              lower = levelAt b (ps ! i); upper = levelAt b (ps ! Suc i);
              flagged = set (imbalances (finalizeBar r b))
          in ps ! i < ps ! Suc i
             \<and> {e \<in> flagged. imb_side e = AskImb \<and> imb_price e = ps ! i}
                 = (if bidVol upper > 0 \<and> askVol lower / bidVol upper \<ge> r
                    then {\<lparr>imb_price = ps ! i, imb_ratio = askVol lower / bidVol upper,
                           imb_side = AskImb\<rparr>}
                    else {})
             \<and> {e \<in> flagged. imb_side e = BidImb \<and> imb_price e = ps ! Suc i}
                 = (if askVol lower > 0 \<and> bidVol upper / askVol lower \<ge> r
                    then {\<lparr>imb_price = ps ! Suc i, imb_ratio = bidVol upper / askVol lower,
                           imb_side = BidImb\<rparr>}
                    else {})
             \<and> (bidVol upper = 0 \<longrightarrow>
                   {e \<in> flagged. imb_side e = AskImb \<and> imb_price e = ps ! i} = {})
             \<and> (askVol lower = 0 \<longrightarrow>
                   {e \<in> flagged. imb_side e = BidImb \<and> imb_price e = ps ! Suc i} = {}))"
proof -
  define ps where "ps = sort (map fst (levels b))"
  have len: "Suc i < length ps" using assms(2) by (simp add: ps_def)
  have mem: "ps ! k \<in> fst ` set (levels b)" if "k < length ps" for k
  proof -
    have "ps ! k \<in> set ps" using that by simp
    then show ?thesis by (simp add: ps_def)
  qed
  have some: "map_of (levels b) (ps ! k) = Some (levelAt b (ps ! k))" if "k < length ps" for k
  proof -
    from mem [OF that] have "map_of (levels b) (ps ! k) \<noteq> None"
      by (simp add: map_of_eq_None_iff)
    then show ?thesis by (auto simp: levelAt_def)
  qed
  have lo: "map_of (levels b) (ps ! i) = Some (levelAt b (ps ! i))" using some len by simp
  have up: "map_of (levels b) (ps ! Suc i) = Some (levelAt b (ps ! Suc i))" using some len by simp
  note main = finalizeBar_pair [OF assms(1) ps_def len lo up, of r]
  show ?thesis
    unfolding Let_def ps_def [symmetric] using main by auto
qed

theorem C5_imbalance_flags_witness:
  "distinct (map fst (levels example_bar)) \<and> Suc 0 < length (levels example_bar)
   \<and> list_all (\<lambda>e. fst e \<noteq> None) (levels example_bar)
   \<and> {e \<in> set (imbalances (finalizeBar 3 example_bar)).
         imb_side e = BidImb \<and> imb_price e = Some (201 / 2)}
       = {\<lparr>imb_price = Some (201 / 2), imb_ratio = 6, imb_side = BidImb\<rparr>}
   \<and> {e \<in> set (imbalances (finalizeBar 3 example_bar)).
         imb_side e = AskImb \<and> imb_price e = Some 100} = {}"
proof -
  have dist: "distinct (map fst (levels example_bar))" by code_simp
  have len: "Suc 0 < length (levels example_bar)" by code_simp
  have nums: "list_all (\<lambda>e. fst e \<noteq> None) (levels example_bar)" by code_simp
  have ps: "sort (map fst (levels example_bar)) = [Some 100, Some (201 / 2)]" by code_simp
  have lower: "levelAt example_bar (Some 100) = \<lparr>bidVol = 0, askVol = 5, delta = 5\<rparr>"
    by code_simp
  have upper: "levelAt example_bar (Some (201 / 2)) = \<lparr>bidVol = 30, askVol = 0, delta = - 30\<rparr>"
    by code_simp
  have nth: "[Some (100::rat), Some (201 / 2)] ! 0 = Some 100"
    "[Some (100::rat), Some (201 / 2)] ! Suc 0 = Some (201 / 2)" by simp_all
  note inst = C5_imbalance_flags [OF dist len nums, of 3, unfolded Let_def ps nth lower upper]
  from inst dist len nums show ?thesis by simp
qed

section \<open>CVD calculator: the session reset\<close>

text \<open>
  C10. \<open>resetSession\<close> sets the session value to 0 and empties the history and leaves
  the per-bar delta and the current bar key as they are. So when a tick \<open>t1\<close> is
  ingested, the session is reset, and a tick \<open>t2\<close> of the same bar bucket follows, the
  point returned for \<open>t2\<close> has a cumulative value of just the delta of \<open>t2\<close> but a
  per-bar delta that continues from the point before the reset.
\<close>

theorem C10_reset_keeps_bar_delta:
  assumes same: "barKey (cvd_barDurationMs c) (ts t2) = barKey (cvd_barDurationMs c) (ts t1)"
    and d: "cvd_barDurationMs c \<noteq> 0"
  shows "sessionCvd (resetSession s now) = 0 \<and> history (resetSession s now) = []
    \<and> barCvd (resetSession s now) = barCvd s
    \<and> currentBarTs (resetSession s now) = currentBarTs s
    \<and> p_barDelta (snd (cvd_ingest (resetSession (fst (cvd_ingest c t1)) now) t2))
        = p_barDelta (snd (cvd_ingest c t1)) + tick_delta t2
    \<and> p_cvd (snd (cvd_ingest (resetSession (fst (cvd_ingest c t1)) now) t2)) = tick_delta t2"
  using assms
  by (simp add: resetSession_def cvd_ingest_def Let_def js_neq_def barKey_exact split: option.splits)

theorem C10_reset_keeps_bar_delta_witness:
  "barKey (cvd_barDurationMs (new_CvdCalculator 0))
       (ts \<lparr>ts = 200, price = 100, tsize = 5, side = Buy\<rparr>)
     = barKey (cvd_barDurationMs (new_CvdCalculator 0))
         (ts \<lparr>ts = 100, price = 100, tsize = 10, side = Buy\<rparr>)
   \<and> cvd_barDurationMs (new_CvdCalculator 0) \<noteq> 0
   \<and> p_barDelta (snd (cvd_ingest
        (resetSession (fst (cvd_ingest (new_CvdCalculator 0)
           \<lparr>ts = 100, price = 100, tsize = 10, side = Buy\<rparr>)) 150)
        \<lparr>ts = 200, price = 100, tsize = 5, side = Buy\<rparr>)) = 15
   \<and> p_cvd (snd (cvd_ingest
        (resetSession (fst (cvd_ingest (new_CvdCalculator 0)
           \<lparr>ts = 100, price = 100, tsize = 10, side = Buy\<rparr>)) 150)
        \<lparr>ts = 200, price = 100, tsize = 5, side = Buy\<rparr>)) = 5"
proof -
  let ?c = "new_CvdCalculator 0"
  let ?t1 = "\<lparr>ts = 100, price = 100, tsize = 10, side = Buy\<rparr>"
  let ?t2 = "\<lparr>ts = 200, price = 100, tsize = 5, side = Buy\<rparr>"
  have same: "barKey (cvd_barDurationMs ?c) (ts ?t2) = barKey (cvd_barDurationMs ?c) (ts ?t1)"
    by code_simp
  have d: "cvd_barDurationMs ?c \<noteq> 0" by (simp add: new_CvdCalculator_def)
  have before: "p_barDelta (snd (cvd_ingest ?c ?t1)) = 10" by code_simp
  have dt: "tick_delta ?t2 = 5" by (simp add: tick_delta_def)
  note inst = C10_reset_keeps_bar_delta [OF same d, of ?c 150, unfolded before dt]
  from inst same d show ?thesis by simp
qed

section \<open>DOM builder: what an update reports\<close>

lemma retained_iff: "retained new p \<longleftrightarrow> (\<exists>s. (p, s) \<in> set new \<and> s > 0)"
  by (force simp: retained_def list_ex_iff)

lemma setLevels_dom:
  "map_of (setLevels m xs) p \<noteq> None \<longleftrightarrow> map_of m p \<noteq> None \<or> retained xs p"
proof (induction m xs rule: setLevels.induct)
  case (1 m)
  then show ?case by (simp add: retained_def)
next
  case (2 m q s xs)
  then show ?case by (auto simp: update_conv' retained_def)
qed

lemma setLevels_distinct:
  "distinct (map fst m) \<Longrightarrow> distinct (map fst (setLevels m xs))"
  by (induction m xs rule: setLevels.induct) (simp_all add: distinct_update)

lemma setLevels_positive:
  "list_all (\<lambda>e. 0 < snd e) m \<Longrightarrow> list_all (\<lambda>e. 0 < snd e) (setLevels m xs)"
  by (induction m xs rule: setLevels.induct) (simp_all add: list_all_update)

lemma set_slice0: "set (slice0 n xs) \<subseteq> set xs"
  by (auto simp: slice0_def dest: in_set_takeD)

lemma slice0_all: "int (length xs) \<le> n \<Longrightarrow> slice0 n xs = xs"
  by (simp add: slice0_def)

lemma buildLevels_mem:
  assumes "e \<in> set (buildLevels n cur prev sd)"
  shows "\<exists>p s. (p, s) \<in> set cur \<and> e = classify prev sd (p, s)"
proof -
  from assms obtain x where x: "x \<in> set (slice0 n (case sd of Bid \<Rightarrow> sort_key (\<lambda>e. - fst e) cur | Ask \<Rightarrow> sort_key fst cur))"
     "e = classify prev sd x"
    by (auto simp: buildLevels_def)
  have mem: "x \<in> set cur"
  proof (cases sd)
    case Bid
    with x(1) set_slice0 [of n "sort_key (\<lambda>e. - fst e) cur"] show ?thesis by auto
  next
    case Ask
    with x(1) set_slice0 [of n "sort_key fst cur"] show ?thesis by auto
  qed
  obtain p s where xp: "x = (p, s)" by (cases x)
  with mem x(2) show ?thesis by blast
qed

lemma buildLevels_all:
  assumes "int (length cur) \<le> n"
  shows "set (buildLevels n cur prev sd) = classify prev sd ` set cur"
  using assms by (cases sd) (simp_all add: buildLevels_def slice0_all)

lemma classify_fields:
  "l_price (classify prev sd (p, s)) = p" "l_size (classify prev sd (p, s)) = s"
  "l_side (classify prev sd (p, s)) = sd" "l_prevSize (classify prev sd (p, s)) = map_of prev p"
  "l_change (classify prev sd (p, s)) =
     (case map_of prev p of None \<Rightarrow> Added | Some ps \<Rightarrow> if s = ps then Unchanged else Modified)"
  by (auto simp: classify_def split: option.splits)

lemma side_view:
  assumes cur: "cur = setLevels [] new"
  shows "sideReport thr n sd prev new cur (buildLevels n cur prev sd) (pulled thr prev cur sd)"
proof -
  have dom: "map_of cur p \<noteq> None \<longleftrightarrow> retained new p" for p
    using setLevels_dom [of "[]" new p] by (simp add: cur)
  have dist: "distinct (map fst cur)" by (simp add: cur setLevels_distinct)
  have "list_all (\<lambda>e. 0 < snd e) cur" by (simp add: cur setLevels_positive)
  then have pos: "(p, s) \<in> set cur \<Longrightarrow> s > 0" for p s
    by (auto simp: list_all_iff)
  have pl: "pulled thr prev cur sd
        = map (removedLevel sd) (filter (\<lambda>e. snd e \<ge> thr \<and> \<not> retained new (fst e)) prev)"
    unfolding pulled_def using dom by (metis (mono_tags, lifting))
  have view: "retained new (l_price e)
          \<and> map_of cur (l_price e) = Some (l_size e) \<and> l_size e > 0 \<and> l_side e = sd
          \<and> l_prevSize e = map_of prev (l_price e)
          \<and> l_change e = (case map_of prev (l_price e) of None \<Rightarrow> Added
                          | Some ps \<Rightarrow> if l_size e = ps then Unchanged else Modified)
          \<and> l_price e \<notin> l_price ` set (pulled thr prev cur sd)"
    if "e \<in> set (buildLevels n cur prev sd)" for e
  proof -
    from buildLevels_mem [OF that] obtain p s where ps: "(p, s) \<in> set cur" "e = classify prev sd (p, s)"
      by blast
    have m: "map_of cur p = Some s" using ps dist by simp
    have "p \<notin> l_price ` set (pulled thr prev cur sd)"
      using m by (auto simp: pulled_def removedLevel_def)
    moreover have "retained new p" using dom [of p] m by simp
    ultimately show ?thesis
      unfolding ps(2) using m pos [OF ps(1)] by (simp add: classify_fields split: option.splits)
  qed
  have full: "l_price ` set (buildLevels n cur prev sd) = {p. retained new p}"
    if "int (length cur) \<le> n"
  proof -
    have "l_price ` set (buildLevels n cur prev sd) = fst ` set cur"
      unfolding buildLevels_all [OF that] by (force simp: classify_fields image_iff)
    also have "\<dots> = {p. map_of cur p \<noteq> None}"
      by (auto simp: map_of_eq_None_iff)
    finally show ?thesis using dom by simp
  qed
  show ?thesis unfolding sideReport_def using dom pl view full by blast
qed

text \<open>
  C6, as claimed, fails for a removed level that is not large. A book holds one bid of
  50 at 100; the next update gives no level at all. The price 100 was present with a
  non-zero size and is absent now, yet the snapshot reports it nowhere: every list of
  it is empty (with an empty book the threshold for a pulled level is 100).
\<close>

theorem C6_removed_unreported_counterexample:
  "map_of (bids (update (new_DomBuilder 10) [(100, 50)] [])) 100 = Some 50
   \<and> snapshot (update (update (new_DomBuilder 10) [(100, 50)] []) [] [])
       = \<lparr>s_bids = [], s_asks = [], stackedBids = [], stackedAsks = [],
          pulledBids = [], pulledAsks = [], bestBid = None, bestAsk = None, spread = None\<rparr>"
  by code_simp

text \<open>
  C6, amended. After an update, on each side of the book: a price is in the new book
  exactly when the update gives it with a positive size; the separate list of removed
  levels (\<open>pulledBids\<close>, \<open>pulledAsks\<close>) holds, with their previous size and the change
  \<open>removed\<close>, exactly the previous levels that are not in the new book and whose size
  is at least the large-size threshold of the new book (3 times its mean size, 100 when
  it is empty), and none of them is in the ranked view; each level of the ranked view
  is a level of the new book, classified \<open>added\<close> when the price was absent before,
  \<open>modified\<close> when its size differs from the previous one and \<open>unchanged\<close> when it is
  the same; and the view holds every retained price when the book has no more than
  \<open>maxLevels\<close> levels.
\<close>

theorem C6_dom_report:
  "(let d' = update d newBids newAsks; snap = snapshot d'; thr = calcLargeThreshold d' in
      sideReport thr (maxLevels d) Bid (bids d) newBids (bids d') (s_bids snap) (pulledBids snap)
      \<and> sideReport thr (maxLevels d) Ask (asks d) newAsks (asks d') (s_asks snap) (pulledAsks snap))"
  using side_view [of "setLevels [] newBids" newBids _ "maxLevels d" Bid "bids d"]
        side_view [of "setLevels [] newAsks" newAsks _ "maxLevels d" Ask "asks d"]
  by (simp add: Let_def snapshot_def update_def)

theorem C6_dom_report_witness:
  "pulledBids (snapshot (update example_dom example_newBids [(101, 40)]))
      = [\<lparr>l_price = 99, l_size = 500, l_side = Bid, l_change = Removed, l_prevSize = None\<rparr>]
   \<and> int (length (bids (update example_dom example_newBids [(101, 40)]))) \<le> maxLevels example_dom
   \<and> s_bids (snapshot (update example_dom example_newBids [(101, 40)])) \<noteq> []
   \<and> l_price ` set (s_bids (snapshot (update example_dom example_newBids [(101, 40)])))
       = {p. retained example_newBids p}"
proof -
  let ?d' = "update example_dom example_newBids [(101, 40)]"
  have fits: "int (length (bids ?d')) \<le> maxLevels example_dom" by code_simp
  have ne: "s_bids (snapshot ?d') \<noteq> []" by code_simp
  have gone: "map (removedLevel Bid)
      (filter (\<lambda>e. snd e \<ge> calcLargeThreshold ?d' \<and> \<not> retained example_newBids (fst e))
         (bids example_dom))
     = [\<lparr>l_price = 99, l_size = 500, l_side = Bid, l_change = Removed, l_prevSize = None\<rparr>]"
    by code_simp
  note inst = C6_dom_report [of example_dom example_newBids "[(101, 40)]", unfolded Let_def sideReport_def]
  from inst fits ne gone show ?thesis by simp
qed

section \<open>Tape metrics: the absorption event\<close>

lemma foldl_tsize: "foldl (\<lambda>a t. a + tsize t) a ws = a + sum_list (map tsize ws)"
  by (induction ws arbitrary: a) simp_all

lemma fold_max_Max: "fold max ps (p::rat) = Max (set (p # ps))"
  by (rule Max.set_eq_fold [symmetric])

lemma fold_min_Min: "fold min ps (p::rat) = Min (set (p # ps))"
  by (rule Min.set_eq_fold [symmetric])

lemma absorptionCheck_spec:
  "absorptionCheck thr now recent =
     (let window = drop (length recent - 20) recent;
          pr = Max (set (map price window)) - Min (set (map price window));
          tv = sum_list (map tsize window)
      in if length recent \<ge> 10 \<and> pr < 2 * (1 / 4) \<and> tv > thr * 5
         then Some \<lparr>totalVol = tv, priceRange = pr, a_ts = now\<rparr> else None)"
proof (cases "length recent \<ge> 10")
  case False
  then show ?thesis by (simp add: absorptionCheck_def Let_def)
next
  case True
  define window where "window = drop (length recent - 20) recent"
  have "window \<noteq> []" using True by (simp add: window_def)
  then obtain w ws where w: "window = w # ws" by (cases window) auto
  show ?thesis
    using True
    by (simp add: absorptionCheck_def Let_def window_def [symmetric] w foldl_tsize
          fold_max_Max fold_min_Min)
qed

text \<open>
  What \<^verbatim>\<open>ingest\<close> computes: the buffer after the tick, and the event, emitted when at
  least 10 trades are buffered, the price range of the most recent 20 is strictly below
  the constant \<^verbatim>\<open>2 * 0.25\<close> and their volume is above five large prints.
\<close>

lemma metrics_ingest_absorption:
  "recentTrades (fst (metrics_ingest m t))
     = filter (\<lambda>x. ts x > ts t - absorptionWindow m) (recentTrades m)
       @ [\<lparr>ts = ts t, price = price t, tsize = tsize t, side = side t\<rparr>]
   \<and> r_absorption (snd (metrics_ingest m t)) =
       (let recent = recentTrades (fst (metrics_ingest m t));
            window = drop (length recent - 20) recent;
            pr = Max (set (map price window)) - Min (set (map price window));
            tv = sum_list (map tsize window)
        in if length recent \<ge> 10 \<and> pr < 2 * (1 / 4) \<and> tv > largePrintThreshold m * 5
           then Some \<lparr>totalVol = tv, priceRange = pr, a_ts = ts t\<rparr> else None)"
  by (simp add: metrics_ingest_def Let_def absorptionCheck_spec)

text \<open>
  C7. On the boundary of the price range the code emits nothing where the claim has
  an event. The analyzer (large print threshold 50) has buffered nine trades of size
  30 at 100 and ingests a tenth of size 30 at 100.5. Ten trades are buffered, their
  price range is 0.5, which is at most twice a tick size of 0.25, and their volume 300
  exceeds five large prints: the condition of the claim holds, and the result carries
  no absorption event, the test of the code being \<^verbatim>\<open>priceRange < 2 * 0.25\<close>. With the
  tenth trade at 100.25 the event is emitted, and it is the object of the total
  volume, the price range and the timestamp: it has no bias.
\<close>

theorem C7_boundary_no_event:
  "length (recentTrades (fst (metrics_ingest example_metrics
       \<lparr>ts = 10, price = 201 / 2, tsize = 30, side = Sell\<rparr>))) \<ge> 10
   \<and> spec_absorption_cond (1 / 4) (largePrintThreshold example_metrics)
       (drop (length (recentTrades (fst (metrics_ingest example_metrics
                \<lparr>ts = 10, price = 201 / 2, tsize = 30, side = Sell\<rparr>))) - 20)
          (recentTrades (fst (metrics_ingest example_metrics
                \<lparr>ts = 10, price = 201 / 2, tsize = 30, side = Sell\<rparr>))))
   \<and> r_absorption (snd (metrics_ingest example_metrics
       \<lparr>ts = 10, price = 201 / 2, tsize = 30, side = Sell\<rparr>)) = None
   \<and> r_absorption (snd (metrics_ingest example_metrics
       \<lparr>ts = 10, price = 401 / 4, tsize = 30, side = Sell\<rparr>))
       = Some \<lparr>totalVol = 300, priceRange = 1 / 4, a_ts = 10\<rparr>"
  by code_simp

text \<open>
  The bound of the code is the constant and not a multiple of the tick size of the
  instrument: for a tick size of 0.5 and a tenth trade at 100.75 the range 0.75 is
  within two ticks and the volume is above five large prints, and nothing is emitted.
\<close>

lemma absorption_fixed_bound:
  "spec_absorption_cond (1 / 2) (largePrintThreshold example_metrics)
       (drop (length (recentTrades (fst (metrics_ingest example_metrics
                \<lparr>ts = 10, price = 403 / 4, tsize = 30, side = Sell\<rparr>))) - 20)
          (recentTrades (fst (metrics_ingest example_metrics
                \<lparr>ts = 10, price = 403 / 4, tsize = 30, side = Sell\<rparr>))))
   \<and> r_absorption (snd (metrics_ingest example_metrics
       \<lparr>ts = 10, price = 403 / 4, tsize = 30, side = Sell\<rparr>)) = None"
  by code_simp

section \<open>Alert evaluator: the throttle\<close>

lemma makeAlert_type: "al_type (makeAlert now ctx ty) = ty"
  by (cases ty) (simp_all add: makeAlert_def Let_def)

lemma checkType_eq:
  "checkType now ctx ty (ev, als) =
     (if qualifies (config ev) ctx ty \<and> throttleOpen ev now ty
      then (ev\<lparr>recentAlerts := (recentAlerts ev)(ty \<mapsto> now)\<rparr>, als @ [makeAlert now ctx ty])
      else (ev, als))"
  by (simp add: checkType_def canAlert_def)

lemma checkType_frame:
  "config (fst (checkType now ctx ty st)) = config (fst st)"
  "throttleMs (fst (checkType now ctx ty st)) = throttleMs (fst st)"
  "ty' \<noteq> ty \<Longrightarrow> recentAlerts (fst (checkType now ctx ty st)) ty' = recentAlerts (fst st) ty'"
  "ty' \<noteq> ty \<Longrightarrow> filter (\<lambda>a. al_type a = ty') (snd (checkType now ctx ty st))
       = filter (\<lambda>a. al_type a = ty') (snd st)"
  by (cases st; simp add: checkType_eq makeAlert_type)+

lemma checkType_own:
  "recentAlerts (fst (checkType now ctx ty st)) ty
     = (if qualifies (config (fst st)) ctx ty \<and> throttleOpen (fst st) now ty then Some now
        else recentAlerts (fst st) ty)"
  "filter (\<lambda>a. al_type a = ty) (snd (checkType now ctx ty st))
     = filter (\<lambda>a. al_type a = ty) (snd st)
       @ (if qualifies (config (fst st)) ctx ty \<and> throttleOpen (fst st) now ty
          then [makeAlert now ctx ty] else [])"
  by (cases st; simp add: checkType_eq makeAlert_type)+

lemma checkType_throttleOpen:
  "ty' \<noteq> ty \<Longrightarrow> throttleOpen (fst (checkType now ctx ty st)) now' ty' = throttleOpen (fst st) now' ty'"
  by (simp add: throttleOpen_def checkType_frame split: option.splits)

lemma evaluate_frame:
  "config (fst (evaluate ev now ctx)) = config ev"
  "throttleMs (fst (evaluate ev now ctx)) = throttleMs ev"
  by (simp_all add: evaluate_def checkType_frame)

lemma evaluate_type:
  "filter (\<lambda>a. al_type a = ty) (snd (evaluate ev now ctx))
     = (if qualifies (config ev) ctx ty \<and> throttleOpen ev now ty then [makeAlert now ctx ty] else [])"
  "recentAlerts (fst (evaluate ev now ctx)) ty
     = (if qualifies (config ev) ctx ty \<and> throttleOpen ev now ty then Some now
        else recentAlerts ev ty)"
  by (cases ty; simp add: evaluate_def checkType_frame checkType_own checkType_throttleOpen)+

lemma fires_filter: "fires ty als \<longleftrightarrow> filter (\<lambda>a. al_type a = ty) als \<noteq> []"
  by (auto simp: fires_def filter_empty_conv)

lemma evaluate_fires:
  "fires ty (snd (evaluate ev now ctx)) \<longleftrightarrow> qualifies (config ev) ctx ty \<and> throttleOpen ev now ty"
  by (simp add: fires_filter evaluate_type)

lemma evaluations_quiet:
  assumes "recentAlerts ev ty = Some t0" "t0 \<noteq> 0"
    and "list_all (\<lambda>e. fst e - t0 \<le> throttleMs ev) run"
  shows "list_all (\<lambda>als. \<not> fires ty als) (snd (evaluations ev run))
     \<and> recentAlerts (fst (evaluations ev run)) ty = Some t0
     \<and> throttleMs (fst (evaluations ev run)) = throttleMs ev
     \<and> config (fst (evaluations ev run)) = config ev"
  using assms
proof (induction run arbitrary: ev)
  case Nil
  then show ?case by simp
next
  case (Cons e run)
  obtain now ctx where e: "e = (now, ctx)" by (cases e)
  define ev' where "ev' = fst (evaluate ev now ctx)"
  have closed: "\<not> throttleOpen ev now ty"
    using Cons.prems by (simp add: throttleOpen_def e)
  have quiet: "\<not> fires ty (snd (evaluate ev now ctx))"
    using closed by (simp add: evaluate_fires)
  have st: "recentAlerts ev' ty = Some t0" "throttleMs ev' = throttleMs ev" "config ev' = config ev"
    using closed Cons.prems by (simp_all add: ev'_def evaluate_type evaluate_frame)
  have "list_all (\<lambda>e. fst e - t0 \<le> throttleMs ev') run" using Cons.prems st by simp
  from Cons.IH [OF st(1) Cons.prems(2) this] quiet st
  show ?case
    by (simp add: e ev'_def case_prod_beta)
qed

text \<open>
  C9. Let an evaluation at clock reading \<open>t0\<close> fire an alert of type \<open>ty\<close> (\<open>t0\<close> is
  not 0: the evaluator reads a stored time of 0 as no time at all). Then in any run of
  further evaluations whose clock readings are within \<open>throttleMs\<close> of \<open>t0\<close>, none
  returns an alert of type \<open>ty\<close>, whether it qualifies or not; and an evaluation after
  the run that qualifies for \<open>ty\<close>, at a reading more than \<open>throttleMs\<close> after \<open>t0\<close>,
  returns one alert of type \<open>ty\<close>, made from its own tick and context: what was dropped
  in the window is not delivered later.
\<close>

theorem C9_throttle:
  assumes fired: "fires ty (snd (evaluate ev t0 ctx0))" and nz: "t0 \<noteq> 0"
    and within: "list_all (\<lambda>e. fst e - t0 \<le> throttleMs ev) run"
  shows "list_all (\<lambda>als. \<not> fires ty als) (snd (evaluations (fst (evaluate ev t0 ctx0)) run))
     \<and> (let ev2 = fst (evaluations (fst (evaluate ev t0 ctx0)) run) in
          qualifies (config ev2) c ty \<and> t - t0 > throttleMs ev \<longrightarrow>
            filter (\<lambda>a. al_type a = ty) (snd (evaluate ev2 t c)) = [makeAlert t c ty])"
proof -
  define ev1 where "ev1 = fst (evaluate ev t0 ctx0)"
  have r: "recentAlerts ev1 ty = Some t0" and th: "throttleMs ev1 = throttleMs ev"
    using fired by (simp_all add: ev1_def evaluate_fires evaluate_type evaluate_frame)
  have w: "list_all (\<lambda>e. fst e - t0 \<le> throttleMs ev1) run" using within th by simp
  note q = evaluations_quiet [OF r nz w]
  show ?thesis
    using q th by (simp add: ev1_def [symmetric] Let_def evaluate_type throttleOpen_def)
qed

theorem C9_throttle_witness:
  "fires LargePrint (snd (evaluate (new_AlertEvaluator default_config) 1000 example_context))
   \<and> (1000::rat) \<noteq> 0
   \<and> list_all (\<lambda>e. fst e - 1000 \<le> throttleMs (new_AlertEvaluator default_config))
        [(2000, example_context), (3500, example_context)]
   \<and> length (snd (evaluations (fst (evaluate (new_AlertEvaluator default_config) 1000 example_context))
           [(2000, example_context), (3500, example_context)])) = 2
   \<and> list_all (\<lambda>als. \<not> fires LargePrint als)
        (snd (evaluations (fst (evaluate (new_AlertEvaluator default_config) 1000 example_context))
           [(2000, example_context), (3500, example_context)]))
   \<and> filter (\<lambda>a. al_type a = LargePrint)
        (snd (evaluate
           (fst (evaluations (fst (evaluate (new_AlertEvaluator default_config) 1000 example_context))
              [(2000, example_context), (3500, example_context)]))
           4001 example_context))
       = [makeAlert 4001 example_context LargePrint]"
proof -
  let ?ev = "new_AlertEvaluator default_config"
  let ?run = "[(2000, example_context), (3500, example_context)]"
  have fired: "fires LargePrint (snd (evaluate ?ev 1000 example_context))" by code_simp
  have nz: "(1000::rat) \<noteq> 0" by simp
  have within: "list_all (\<lambda>e. fst e - 1000 \<le> throttleMs ?ev) ?run"
    by (simp add: new_AlertEvaluator_def)
  have len: "length (snd (evaluations (fst (evaluate ?ev 1000 example_context)) ?run)) = 2"
    by (simp add: case_prod_beta)
  have q: "qualifies (config (fst (evaluations (fst (evaluate ?ev 1000 example_context)) ?run)))
             example_context LargePrint"
    by code_simp
  have late: "4001 - 1000 > throttleMs ?ev" by (simp add: new_AlertEvaluator_def)
  note inst = C9_throttle [OF fired nz within, of example_context 4001, unfolded Let_def]
  from inst fired nz within len q late show ?thesis by simp
qed

end
